theory Spec2Isabelle
  imports Main "HOL-Library.Sublist"
begin

section \<open>Text and character classes\<close>

text \<open>
  The program reads source files into Python \<open>str\<close> values and scans them with the
  \<open>re\<close> module. A text is modelled as a \<open>string\<close>; each \<open>char\<close> stands for one
  code point in the range U+0000 to U+00FF. The classes below are the ones \<open>re\<close> uses for
  \<open>str\<close> patterns on that range: \<open>\s\<close> and \<open>str.strip()\<close> share one whitespace
  table, \<open>\w\<close> is every alphanumeric code point and the underscore, and the dot matches
  everything but the line feed.
\<close>

definition is_space :: "char \<Rightarrow> bool" where
  "is_space c = (c \<in> set [CHR 0x09, CHR 0x0A, CHR 0x0B, CHR 0x0C, CHR 0x0D, CHR 0x1C, CHR 0x1D,
                           CHR 0x1E, CHR 0x1F, CHR 0x20, CHR 0x85, CHR 0xA0])"

definition is_word :: "char \<Rightarrow> bool" where
  "is_word c = (let n = (of_char c :: nat) in
      (48 \<le> n \<and> n \<le> 57) \<or> (65 \<le> n \<and> n \<le> 90) \<or> n = 95 \<or> (97 \<le> n \<and> n \<le> 122) \<or>
      n \<in> set [0xAA, 0xB2, 0xB3, 0xB5, 0xB9, 0xBA, 0xBC, 0xBD, 0xBE] \<or>
      (0xC0 \<le> n \<and> n \<noteq> 0xD7 \<and> n \<noteq> 0xF7))"

definition not_space :: "char \<Rightarrow> bool" where
  "not_space c = (\<not> is_space c)"

definition any_but_newline :: "char \<Rightarrow> bool" where
  "any_but_newline c = (c \<noteq> CHR 0x0A)"

definition is_quote :: "char \<Rightarrow> bool" where
  "is_quote c = (c = CHR 0x27 \<or> c = CHR 0x22)"

definition not_quote :: "char \<Rightarrow> bool" where
  "not_quote c = (\<not> is_quote c)"

definition not_rparen :: "char \<Rightarrow> bool" where
  "not_rparen c = (c \<noteq> CHR '')'')"

definition not_lbrace :: "char \<Rightarrow> bool" where
  "not_lbrace c = (c \<noteq> CHR ''{'')"

definition not_colon :: "char \<Rightarrow> bool" where
  "not_colon c = (c \<noteq> CHR '':'')"

definition not_eq_gt :: "char \<Rightarrow> bool" where
  "not_eq_gt c = (c \<noteq> CHR ''='' \<and> c \<noteq> CHR ''>'')"

definition strip :: "string \<Rightarrow> string" where
  "strip s = rev (dropWhile is_space (rev (dropWhile is_space s)))"

section \<open>Regular expressions as the program uses them\<close>

text \<open>
  The patterns of the program use literals, character classes, greedy and lazy repetition
  of a character class, sequence, alternation, the greedy optional group and capturing
  groups. \<open>m r s c\<close> lists, in the order in which the backtracking matcher of \<open>re\<close> tries
  them, every way \<open>r\<close> matches a prefix of \<open>s\<close>: the captures after the match and the text
  that is left. The match \<open>re\<close> reports is the first one of the list.
\<close>

datatype rx =
    Lit string
  | Cls "char \<Rightarrow> bool"
  | Star "char \<Rightarrow> bool"
  | LazyStar "char \<Rightarrow> bool"
  | Seq rx rx
  | Alt rx rx
  | Opt rx
  | Grp nat rx

type_synonym caps = "nat \<rightharpoonup> string"

text \<open>The suffixes left by repeating a class zero times, once, twice, and so on.\<close>

fun reps :: "(char \<Rightarrow> bool) \<Rightarrow> string \<Rightarrow> string list" where
  "reps p [] = [[]]"
| "reps p (x # xs) = (x # xs) # (if p x then reps p xs else [])"

fun m :: "rx \<Rightarrow> string \<Rightarrow> caps \<Rightarrow> (caps \<times> string) list" where
  "m (Lit l) s c = (if prefix l s then [(c, drop (length l) s)] else [])"
| "m (Cls p) s c = (case s of [] \<Rightarrow> [] | x # xs \<Rightarrow> if p x then [(c, xs)] else [])"
| "m (Star p) s c = map (Pair c) (rev (reps p s))"
| "m (LazyStar p) s c = map (Pair c) (reps p s)"
| "m (Seq a b) s c = concat (map (\<lambda>(c', s'). m b s' c') (m a s c))"
| "m (Alt a b) s c = m a s c @ m b s c"
| "m (Opt a) s c = m a s c @ [(c, s)]"
| "m (Grp i a) s c =
     map (\<lambda>(c', s'). (c'(i \<mapsto> take (length s - length s') s), s')) (m a s c)"

fun ngroups :: "rx \<Rightarrow> nat" where
  "ngroups (Seq a b) = ngroups a + ngroups b"
| "ngroups (Alt a b) = ngroups a + ngroups b"
| "ngroups (Opt a) = ngroups a"
| "ngroups (Grp i a) = Suc (ngroups a)"
| "ngroups _ = 0"

text \<open>The groups that take part in every match of a pattern.\<close>

fun must :: "rx \<Rightarrow> nat set" where
  "must (Seq a b) = must a \<union> must b"
| "must (Alt a b) = must a \<inter> must b"
| "must (Grp i a) = insert i (must a)"
| "must _ = {}"

fun cat :: "rx list \<Rightarrow> rx" where
  "cat [] = Lit []"
| "cat [r] = r"
| "cat (r # rs) = Seq r (cat rs)"

fun alts :: "string list \<Rightarrow> rx" where
  "alts [] = Lit []"
| "alts [l] = Lit l"
| "alts (l # ls) = Alt (Lit l) (alts ls)"

definition one_or_more :: "(char \<Rightarrow> bool) \<Rightarrow> rx" where
  "one_or_more p = Seq (Cls p) (Star p)"

subsection \<open>Searching and iterating\<close>

text \<open>
  \<open>re.finditer\<close> scans the text from left to right. At each position it takes the first
  way the pattern matches there; after a match it goes on from the end of that match.
  After an empty match the scan stays where it is and a match there has to be non-empty
  (the flag \<open>adv\<close>). \<open>search\<close> returns the start position, the text from the start
  position on, the captures and the text after the match.
\<close>

definition candidates :: "rx \<Rightarrow> bool \<Rightarrow> string \<Rightarrow> (caps \<times> string) list" where
  "candidates r adv s =
     (if adv then filter (\<lambda>(c, s'). length s' < length s) (m r s Map.empty)
      else m r s Map.empty)"

fun search :: "rx \<Rightarrow> bool \<Rightarrow> nat \<Rightarrow> string \<Rightarrow> (nat \<times> string \<times> caps \<times> string) option" where
  "search r adv pos s =
     (case candidates r adv s of
        (c, s') # _ \<Rightarrow> Some (pos, s, c, s')
      | [] \<Rightarrow> (case s of [] \<Rightarrow> None | x # xs \<Rightarrow> search r False (Suc pos) xs))"

text \<open>
  A match object: \<open>group0\<close> is \<open>match.group(0)\<close>, \<open>grp\<close> holds the numbered groups
  (\<open>None\<close> for a group that took no part), \<open>m_ngroups\<close> is the number of groups of the
  pattern, \<open>m_start\<close> and \<open>m_end\<close> are \<open>match.start()\<close> and \<open>match.end()\<close>.
\<close>

record match_obj =
  group0 :: string
  grp :: caps
  m_ngroups :: nat
  m_start :: nat
  m_end :: nat

lemma reps_len: "t \<in> set (reps p s) \<Longrightarrow> length t \<le> length s"
  by (induction s) (auto split: if_splits)

lemma m_len: "(c', s') \<in> set (m r s c) \<Longrightarrow> length s' \<le> length s"
proof (induction r arbitrary: s c c' s')
  case (Seq a b)
  then show ?case by fastforce
qed (auto split: if_splits list.splits dest: reps_len)

lemma candidates_len:
  "(c', s') \<in> set (candidates r adv s) \<Longrightarrow>
     length s' \<le> length s \<and> (adv \<longrightarrow> length s' < length s)"
  by (auto simp: candidates_def dest: m_len split: if_splits)

lemma search_len:
  "search r adv pos s = Some (st, s0, c, s') \<Longrightarrow>
     length s0 \<le> length s \<and> length s' \<le> length s0 \<and>
     (length s0 = length s \<and> adv \<longrightarrow> length s' < length s0)"
proof (induction r adv pos s rule: search.induct)
  case (1 r adv pos s)
  show ?case
  proof (cases "candidates r adv s")
    case Nil
    show ?thesis
    proof (cases s)
      case Nil2: Nil
      with Nil "1.prems" show ?thesis by simp
    next
      case (Cons x xs)
      with Nil "1.prems" have rec: "search r False (Suc pos) xs = Some (st, s0, c, s')"
        by simp
      from "1.IH"[OF Nil Cons rec] Cons show ?thesis by auto
    qed
  next
    case (Cons a list)
    obtain c1 s1 where a: "a = (c1, s1)" by (cases a)
    have "(c1, s1) \<in> set (candidates r adv s)" using Cons a by simp
    from candidates_len[OF this]
    have "length s1 \<le> length s" "adv \<longrightarrow> length s1 < length s"
      by auto
    moreover have "st = pos \<and> s0 = s \<and> c = c1 \<and> s' = s1"
      using "1.prems" Cons a by simp
    ultimately show ?thesis by auto
  qed
qed

declare search.simps [simp del]

function finditer_from :: "rx \<Rightarrow> bool \<Rightarrow> nat \<Rightarrow> string \<Rightarrow> match_obj list" where
  "finditer_from r adv pos s =
     (case search r adv pos s of
        None \<Rightarrow> []
      | Some (st, s0, c, s') \<Rightarrow>
          \<lparr>group0 = take (length s0 - length s') s0, grp = c, m_ngroups = ngroups r,
           m_start = st, m_end = st + (length s0 - length s')\<rparr>
          # finditer_from r (length s0 - length s' = 0) (st + (length s0 - length s')) s')"
  by pat_completeness auto
termination
proof (relation "measure (\<lambda>(r, adv, pos, s). 2 * length s + (if adv then 0 else 1))", goal_cases)
  case 1
  show ?case by simp
next
  case (2 r adv pos s x2 st y s0 z c s')
  then have "search r adv pos s = Some (st, s0, c, s')" by simp
  from search_len[OF this] show ?case by auto
qed

declare finditer_from.simps [simp del]

definition finditer :: "rx \<Rightarrow> string \<Rightarrow> match_obj list" where
  "finditer r content = finditer_from r False 0 content"

text \<open>
  What holds of every match object \<open>finditer\<close> yields on \<open>content\<close>: it is one of the
  ways the pattern matches at \<open>m_start\<close>, and \<open>group0\<close> is the text between
  \<open>m_start\<close> and \<open>m_end\<close>.
\<close>

definition is_match :: "rx \<Rightarrow> string \<Rightarrow> match_obj \<Rightarrow> bool" where
  "is_match r content mo \<longleftrightarrow>
     m_ngroups mo = ngroups r \<and>
     (\<exists>pre s'. content = pre @ group0 mo @ s' \<and> m_start mo = length pre \<and>
        m_end mo = length pre + length (group0 mo) \<and>
        (grp mo, s') \<in> set (m r (group0 mo @ s') Map.empty))"

definition valid :: "rx \<Rightarrow> match_obj \<Rightarrow> bool" where
  "valid r mo \<longleftrightarrow> m_ngroups mo = ngroups r \<and> (\<forall>i\<in>must r. grp mo i \<noteq> None)"

section \<open>Errors and the values of groups\<close>

text \<open>
  \<open>match.group(k)\<close> raises IndexError for a group the pattern does not have and returns
  \<open>None\<close> for a group that took no part; \<open>None.strip()\<close> and \<open>None.startswith\<close> raise
  AttributeError. The fields the dataclasses declare as \<open>str\<close> are strings in the model:
  where Python would store \<open>None\<close> in such a field the model stops with \<open>NoneStored\<close>.
  The one field in which the program does store \<open>None\<close> is the name of a
  \<open>FunctionInfo\<close>, which therefore is a \<open>string option\<close>.
\<close>

datatype error = AttributeError | IndexError | NoneStored

definition ebind :: "error + 'a \<Rightarrow> ('a \<Rightarrow> error + 'b) \<Rightarrow> error + 'b" where
  "ebind x f = (case x of Inl e \<Rightarrow> Inl e | Inr v \<Rightarrow> f v)"

fun foldE :: "('a \<Rightarrow> 's \<Rightarrow> error + 's) \<Rightarrow> 'a list \<Rightarrow> 's \<Rightarrow> error + 's" where
  "foldE f [] s = Inr s"
| "foldE f (x # xs) s = (case f x s of Inl e \<Rightarrow> Inl e | Inr s' \<Rightarrow> foldE f xs s')"

definition group_n :: "match_obj \<Rightarrow> nat \<Rightarrow> error + string option" where
  "group_n mo k =
     (if k = 0 then Inr (Some (group0 mo))
      else if k \<le> m_ngroups mo then Inr (grp mo k)
      else Inl IndexError)"

definition groups :: "match_obj \<Rightarrow> string option list" where
  "groups mo = map (grp mo) [1..<Suc (m_ngroups mo)]"

definition item :: "'a list \<Rightarrow> nat \<Rightarrow> error + 'a" where
  "item xs i = (if i < length xs then Inr (xs ! i) else Inl IndexError)"

definition str_of :: "string option \<Rightarrow> error + string" where
  "str_of g = (case g of None \<Rightarrow> Inl NoneStored | Some s \<Rightarrow> Inr s)"

definition strip_of :: "string option \<Rightarrow> error + string" where
  "strip_of g = (case g of None \<Rightarrow> Inl AttributeError | Some s \<Rightarrow> Inr (strip s))"

definition truthy :: "string option \<Rightarrow> bool" where
  "truthy g = (g \<noteq> None \<and> g \<noteq> Some [])"

definition strip_if_truthy :: "string option \<Rightarrow> error + string" where
  "strip_if_truthy g = (if truthy g then strip_of g else Inr [])"

definition py_str :: "string option \<Rightarrow> string" where
  "py_str g = (case g of None \<Rightarrow> ''None'' | Some s \<Rightarrow> s)"

section \<open>The records of the analysis\<close>

record FunctionInfo =
  name :: "string option"
  signature :: string
  is_async :: bool
  is_exported :: bool

record ClassInfo =
  name_c :: string
  methods :: "FunctionInfo list"
  is_exported_c :: bool

record TypeInfo =
  name_t :: string
  kind :: string
  is_exported_t :: bool

record FileAnalysis =
  imports_a :: "string list"
  exports_a :: "string list"
  classes_a :: "ClassInfo list"
  functions_a :: "FunctionInfo list"
  types_a :: "TypeInfo list"
  has_tests :: bool

definition FileAnalysis_new :: FileAnalysis where
  "FileAnalysis_new = \<lparr>imports_a = [], exports_a = [], classes_a = [], functions_a = [],
     types_a = [], has_tests = False\<rparr>"

section \<open>analyze\_typescript\_file\<close>

definition opt_export :: rx where
  "opt_export = Opt (Grp 1 (cat [Lit ''export'', one_or_more is_space]))"

definition ts_import_pattern :: rx where
  "ts_import_pattern = cat [Lit ''import'', one_or_more is_space, LazyStar any_but_newline,
     one_or_more is_space, Lit ''from'', one_or_more is_space, Cls is_quote,
     Grp 1 (cat [Lit ''.'', one_or_more not_quote]), Cls is_quote]"

definition export_pattern :: rx where
  "export_pattern = cat [Lit ''export'', one_or_more is_space,
     alts [''const'', ''let'', ''var'', ''function'', ''class'', ''interface'', ''type'', ''enum''],
     one_or_more is_space, Grp 1 (one_or_more is_word)]"

definition default_export_pattern :: rx where
  "default_export_pattern = cat [Lit ''export'', one_or_more is_space, Lit ''default'', one_or_more is_space,
     Grp 1 (one_or_more is_word)]"

definition interface_pattern :: rx where
  "interface_pattern = cat [opt_export, Lit ''interface'', one_or_more is_space, Grp 2 (one_or_more is_word)]"

definition type_pattern :: rx where
  "type_pattern = cat [opt_export, Lit ''type'', one_or_more is_space, Grp 2 (one_or_more is_word)]"

definition enum_pattern :: rx where
  "enum_pattern = cat [opt_export, Lit ''enum'', one_or_more is_space, Grp 2 (one_or_more is_word)]"

definition ts_class_pattern :: rx where
  "ts_class_pattern = cat [opt_export, Lit ''class'', one_or_more is_space, Grp 2 (one_or_more is_word)]"

definition ts_method_pattern :: rx where
  "ts_method_pattern = cat [Opt (alts [''public'', ''private'', ''protected'']), Star is_space,
     Opt (Grp 1 (cat [Lit ''async'', one_or_more is_space])), Grp 2 (one_or_more is_word), Star is_space,
     Lit ''('', Grp 3 (Star not_rparen), Lit '')'',
     Opt (cat [Star is_space, Lit '':'', Star is_space, Grp 4 (one_or_more not_lbrace)]),
     Star is_space, Lit ''{'']"

definition function_pattern :: rx where
  "function_pattern =
     cat [opt_export, Opt (Grp 2 (cat [Lit ''async'', one_or_more is_space])), Lit ''function'',
          one_or_more is_space, Grp 3 (one_or_more is_word), Star is_space,
          Lit ''('', Grp 4 (Star not_rparen), Lit '')'',
          Opt (cat [Star is_space, Lit '':'', Star is_space, Grp 5 (one_or_more not_lbrace)]),
          Star is_space, Lit ''{'']"

definition arrow_pattern :: rx where
  "arrow_pattern =
     cat [opt_export, alts [''const'', ''let'', ''var''], one_or_more is_space, Grp 2 (one_or_more is_word),
          Star is_space, Lit ''='', Star is_space,
          Opt (Grp 3 (cat [Lit ''async'', one_or_more is_space])),
          Lit ''('', Grp 4 (Star not_rparen), Lit '')'',
          Opt (cat [Star is_space, Lit '':'', Star is_space, Grp 5 (one_or_more not_eq_gt)]),
          Star is_space, Lit ''=>'']"

definition func_patterns :: "rx list" where
  "func_patterns = [function_pattern, arrow_pattern]"

definition ts_signature :: "string \<Rightarrow> string \<Rightarrow> string" where
  "ts_signature params return_type =
     ''('' @ params @ '')'' @ (if return_type \<noteq> [] then '': '' @ return_type else [])"

definition ts_import_step :: "match_obj \<Rightarrow> FileAnalysis \<Rightarrow> error + FileAnalysis" where
  "ts_import_step mo a =
     ebind (group_n mo 1) (\<lambda>g. ebind (str_of g) (\<lambda>import_path.
       Inr (a\<lparr>imports_a := imports_a a @ [import_path]\<rparr>)))"

definition export_step :: "match_obj \<Rightarrow> FileAnalysis \<Rightarrow> error + FileAnalysis" where
  "export_step mo a =
     ebind (group_n mo 1) (\<lambda>g. ebind (str_of g) (\<lambda>n.
       Inr (a\<lparr>exports_a := exports_a a @ [n]\<rparr>)))"

definition default_export_step :: "match_obj \<Rightarrow> FileAnalysis \<Rightarrow> error + FileAnalysis" where
  "default_export_step mo a =
     ebind (group_n mo 1) (\<lambda>g.
       Inr (a\<lparr>exports_a := exports_a a @ [''default: '' @ py_str g]\<rparr>))"

definition type_step :: "string \<Rightarrow> match_obj \<Rightarrow> FileAnalysis \<Rightarrow> error + FileAnalysis" where
  "type_step k mo a =
     ebind (group_n mo 1) (\<lambda>g1. ebind (group_n mo 2) (\<lambda>g2. ebind (str_of g2) (\<lambda>n.
       Inr (a\<lparr>types_a := types_a a @
              [\<lparr>name_t = n, kind = k, is_exported_t = (g1 \<noteq> None)\<rparr>]\<rparr>))))"

definition ts_method_step ::
  "string \<Rightarrow> match_obj \<Rightarrow> FunctionInfo list \<Rightarrow> error + FunctionInfo list" where
  "ts_method_step class_name mm ms =
     ebind (group_n mm 1) (\<lambda>g1.
     ebind (group_n mm 2) (\<lambda>method_name.
     ebind (group_n mm 3) (\<lambda>g3. ebind (strip_of g3) (\<lambda>params.
     ebind (group_n mm 4) (\<lambda>g4. ebind (strip_if_truthy g4) (\<lambda>return_type.
       if method_name \<in> set [Some ''constructor'', Some class_name] then Inr ms
       else Inr (ms @ [\<lparr>name = method_name, signature = ts_signature params return_type,
                         is_async = (g1 \<noteq> None), is_exported = False\<rparr>])))))))"

text \<open>The inner loop over the matches of the method pattern in the class section.\<close>

definition ts_methods :: "string \<Rightarrow> string \<Rightarrow> error + FunctionInfo list" where
  "ts_methods class_name class_section =
     foldE (ts_method_step class_name) (finditer ts_method_pattern class_section) []"

definition ts_class_step :: "string \<Rightarrow> match_obj \<Rightarrow> FileAnalysis \<Rightarrow> error + FileAnalysis" where
  "ts_class_step content mo a =
     ebind (group_n mo 1) (\<lambda>g1. ebind (group_n mo 2) (\<lambda>g2. ebind (str_of g2) (\<lambda>class_name.
       let class_pos = m_end mo;
           class_section = take 2000 (drop class_pos content)
       in ebind (ts_methods class_name class_section)
            (\<lambda>ms. Inr (a\<lparr>classes_a := classes_a a @
                     [\<lparr>name_c = class_name, methods = ms, is_exported_c = (g1 \<noteq> None)\<rparr>]\<rparr>)))))"

text \<open>
  The body of the loop over both function patterns. \<open>match.groups()\<close> has one entry for
  each group of the pattern, and each of the two patterns has five groups: the test
  \<open>len(groups) == 5\<close> holds for both, so a match of the arrow pattern is read like a
  function declaration, its name is the optional third group and its second group, the
  identifier, decides \<open>is_async\<close>.
\<close>

definition func_step :: "match_obj \<Rightarrow> FileAnalysis \<Rightarrow> error + FileAnalysis" where
  "func_step mo a =
     (let gs = groups mo in
      if length gs = 5 then
        ebind (item gs 0) (\<lambda>g0. ebind (item gs 1) (\<lambda>g1. ebind (item gs 2) (\<lambda>func_name.
        ebind (item gs 3) (\<lambda>g3. ebind (strip_of g3) (\<lambda>params.
        ebind (item gs 4) (\<lambda>g4. ebind (strip_if_truthy g4) (\<lambda>return_type.
          Inr (a\<lparr>functions_a := functions_a a @
                 [\<lparr>name = func_name, signature = ts_signature params return_type,
                   is_async = (g1 \<noteq> None), is_exported = (g0 \<noteq> None)\<rparr>]\<rparr>))))))))
      else
        ebind (item gs 0) (\<lambda>g0. ebind (item gs 1) (\<lambda>func_name. ebind (item gs 2) (\<lambda>g2.
        ebind (item gs 3) (\<lambda>g3. ebind (strip_of g3) (\<lambda>params.
        ebind (item gs 4) (\<lambda>g4. ebind (strip_if_truthy g4) (\<lambda>return_type.
          Inr (a\<lparr>functions_a := functions_a a @
                 [\<lparr>name = func_name, signature = ts_signature params return_type,
                   is_async = (g2 \<noteq> None), is_exported = (g0 \<noteq> None)\<rparr>]\<rparr>)))))))))"

text \<open>
  The second argument is what \<open>check_has_tests(file_path)\<close> returns: the probe of the file
  system is the caller's, the analysis only stores its answer.
\<close>

definition analyze_typescript_file :: "string \<Rightarrow> bool \<Rightarrow> error + FileAnalysis" where
  "analyze_typescript_file content probe =
     ebind (foldE ts_import_step (finditer ts_import_pattern content) FileAnalysis_new) (\<lambda>a1.
     ebind (foldE export_step (finditer export_pattern content) a1) (\<lambda>a2.
     ebind (foldE default_export_step (finditer default_export_pattern content) a2) (\<lambda>a3.
     ebind (foldE (type_step ''interface'') (finditer interface_pattern content) a3) (\<lambda>a4.
     ebind (foldE (type_step ''type'') (finditer type_pattern content) a4) (\<lambda>a5.
     ebind (foldE (type_step ''enum'') (finditer enum_pattern content) a5) (\<lambda>a6.
     ebind (foldE (ts_class_step content) (finditer ts_class_pattern content) a6) (\<lambda>a7.
     ebind (foldE (\<lambda>pattern. foldE func_step (finditer pattern content)) func_patterns a7)
       (\<lambda>a8. Inr (a8\<lparr>has_tests := probe\<rparr>)))))))))"

section \<open>analyze\_python\_file\<close>

definition py_import_pattern :: rx where
  "py_import_pattern = cat [Lit ''from'', one_or_more is_space, Grp 1 (cat [Lit ''.'', one_or_more not_space]),
     one_or_more is_space, Lit ''import'']"

definition py_class_pattern :: rx where
  "py_class_pattern = cat [Lit ''class'', one_or_more is_space, Grp 1 (one_or_more is_word)]"

definition py_method_pattern :: rx where
  "py_method_pattern = cat [Opt (cat [Lit ''async'', one_or_more is_space]), Lit ''def'', one_or_more is_space,
     Grp 1 (one_or_more is_word), Star is_space, Lit ''('', Grp 2 (Star not_rparen), Lit '')'',
     Opt (cat [Star is_space, Lit ''->'', Star is_space, Grp 3 (one_or_more not_colon)]), Lit '':'']"

definition func_pattern :: rx where
  "func_pattern = cat [Opt (cat [Lit ''async'', one_or_more is_space]), Lit ''def'', one_or_more is_space,
     Grp 1 (one_or_more is_word), Star is_space, Lit ''('', Grp 2 (Star not_rparen), Lit '')'',
     Opt (cat [Star is_space, Lit ''->'', Star is_space, Grp 3 (one_or_more not_colon)]), Lit '':'']"

definition py_signature :: "string \<Rightarrow> string \<Rightarrow> string" where
  "py_signature params return_type =
     ''('' @ params @ '')'' @ (if return_type \<noteq> [] then '' -> '' @ return_type else [])"

definition startswith :: "string option \<Rightarrow> string \<Rightarrow> error + bool" where
  "startswith g p = (case g of None \<Rightarrow> Inl AttributeError | Some s \<Rightarrow> Inr (prefix p s))"

definition py_import_step :: "match_obj \<Rightarrow> FileAnalysis \<Rightarrow> error + FileAnalysis" where
  "py_import_step mo a =
     ebind (group_n mo 1) (\<lambda>g. ebind (str_of g) (\<lambda>import_path.
       Inr (a\<lparr>imports_a := imports_a a @ [import_path]\<rparr>)))"

definition py_method_step :: "match_obj \<Rightarrow> FunctionInfo list \<Rightarrow> error + FunctionInfo list" where
  "py_method_step mm ms =
     ebind (group_n mm 0) (\<lambda>g0. ebind (str_of g0) (\<lambda>whole.
     ebind (group_n mm 1) (\<lambda>method_name.
     ebind (group_n mm 2) (\<lambda>g2. ebind (strip_of g2) (\<lambda>params.
     ebind (group_n mm 3) (\<lambda>g3. ebind (strip_if_truthy g3) (\<lambda>return_type.
     ebind (startswith method_name ''__'') (\<lambda>dunder.
       if dunder \<and> method_name \<noteq> Some ''__init__'' then Inr ms
       else Inr (ms @ [\<lparr>name = method_name, signature = py_signature params return_type,
                         is_async = sublist ''async'' whole, is_exported = False\<rparr>])))))))))"

definition py_methods :: "string \<Rightarrow> error + FunctionInfo list" where
  "py_methods class_section =
     foldE py_method_step (finditer py_method_pattern class_section) []"

definition py_class_step :: "string \<Rightarrow> match_obj \<Rightarrow> FileAnalysis \<Rightarrow> error + FileAnalysis" where
  "py_class_step content mo a =
     ebind (group_n mo 1) (\<lambda>g1. ebind (str_of g1) (\<lambda>class_name.
       let class_pos = m_end mo;
           class_section = take 2000 (drop class_pos content)
       in ebind (py_methods class_section)
            (\<lambda>ms. Inr (a\<lparr>classes_a := classes_a a @
                     [\<lparr>name_c = class_name, methods = ms, is_exported_c = False\<rparr>]\<rparr>))))"

definition py_func_step :: "match_obj \<Rightarrow> FileAnalysis \<Rightarrow> error + FileAnalysis" where
  "py_func_step mo a =
     ebind (group_n mo 0) (\<lambda>g0. ebind (str_of g0) (\<lambda>whole.
     ebind (group_n mo 1) (\<lambda>func_name.
     ebind (group_n mo 2) (\<lambda>g2. ebind (strip_of g2) (\<lambda>params.
     ebind (group_n mo 3) (\<lambda>g3. ebind (strip_if_truthy g3) (\<lambda>return_type.
       if func_name \<in> set (concat (map (\<lambda>c. map name (methods c)) (classes_a a))) then Inr a
       else Inr (a\<lparr>functions_a := functions_a a @
                   [\<lparr>name = func_name, signature = py_signature params return_type,
                     is_async = sublist ''async'' whole, is_exported = False\<rparr>]\<rparr>))))))))"

definition analyze_python_file :: "string \<Rightarrow> bool \<Rightarrow> error + FileAnalysis" where
  "analyze_python_file content probe =
     ebind (foldE py_import_step (finditer py_import_pattern content) FileAnalysis_new) (\<lambda>a1.
     ebind (foldE (py_class_step content) (finditer py_class_pattern content) a1) (\<lambda>a2.
     ebind (foldE py_func_step (finditer func_pattern content) a2) (\<lambda>a3.
       Inr (a3\<lparr>has_tests := probe\<rparr>))))"

section \<open>analyze\_file\<close>







text \<open>
  The branch on the extension, after the file has been read. \<open>ext\<close> is
  \<open>file_path.suffix.lower()\<close>.
\<close>

definition analyze_content :: "string \<Rightarrow> string \<Rightarrow> bool \<Rightarrow> error + FileAnalysis" where
  "analyze_content ext content probe =
     (if ext \<in> set [''.ts'', ''.tsx'', ''.js'', ''.jsx''] then analyze_typescript_file content probe
      else if ext = ''.py'' then analyze_python_file content probe
      else Inr (FileAnalysis_new\<lparr>has_tests := probe\<rparr>))"


section \<open>generate\_compact\_index: the lines written for one file\<close>

text \<open>
  One constructor for each \<open>write\<close> of the loop body, its arguments in the order of the
  fields of the line.
\<close>

datatype line =
    FILE_line string nat bool
  | IMPORT_line string string
  | EXPORT_line string string
  | TYPE_line string string string bool
  | CLASS_line string string bool
  | METHOD_line string string "string option" bool
  | FUNC_line string "string option" bool bool

definition class_lines :: "string \<Rightarrow> ClassInfo \<Rightarrow> line list" where
  "class_lines rel_path class_info =
     CLASS_line rel_path (name_c class_info) (is_exported_c class_info) #
     map (\<lambda>method. METHOD_line rel_path (name_c class_info) (name method) (is_async method))
       (take 10 (methods class_info))"




fun is_IMPORT :: "line \<Rightarrow> bool" where
  "is_IMPORT (IMPORT_line _ _) = True"
| "is_IMPORT _ = False"
fun is_EXPORT :: "line \<Rightarrow> bool" where
  "is_EXPORT (EXPORT_line _ _) = True"
| "is_EXPORT _ = False"
fun is_TYPE :: "line \<Rightarrow> bool" where
  "is_TYPE (TYPE_line _ _ _ _) = True"
| "is_TYPE _ = False"
fun is_CLASS :: "line \<Rightarrow> bool" where
  "is_CLASS (CLASS_line _ _ _) = True"
| "is_CLASS _ = False"
fun is_METHOD :: "line \<Rightarrow> bool" where
  "is_METHOD (METHOD_line _ _ _ _) = True"
| "is_METHOD _ = False"
fun is_FUNC :: "line \<Rightarrow> bool" where
  "is_FUNC (FUNC_line _ _ _ _) = True"
| "is_FUNC _ = False"
fun is_FILE :: "line \<Rightarrow> bool" where
  "is_FILE (FILE_line _ _ _) = True"
| "is_FILE _ = False"

text \<open>
  The text of a line, as the f-string of its \<open>write\<close> builds it; a name that is \<open>None\<close>
  is printed as \<open>None\<close>.
\<close>

fun dec :: "nat \<Rightarrow> string" where
  "dec n = (if n < 10 then [char_of (48 + n)] else dec (n div 10) @ [char_of (48 + n mod 10)])"

declare dec.simps [simp del]

definition flag01 :: "bool \<Rightarrow> string" where
  "flag01 b = (if b then ''1'' else ''0'')"

fun render :: "line \<Rightarrow> string" where
  "render (FILE_line p n t) =
     ''FILE|'' @ p @ ''|'' @ dec n @ ''|'' @ (if t then ''true'' else ''false'') @ [CHR 0x0A]"
| "render (IMPORT_line p i) = ''IMPORT|'' @ p @ ''|'' @ i @ [CHR 0x0A]"
| "render (EXPORT_line p e) = ''EXPORT|'' @ p @ ''|'' @ e @ [CHR 0x0A]"
| "render (TYPE_line p n k e) =
     ''TYPE|'' @ p @ ''|'' @ n @ ''|'' @ k @ ''|'' @ flag01 e @ [CHR 0x0A]"
| "render (CLASS_line p n e) = ''CLASS|'' @ p @ ''|'' @ n @ ''|'' @ flag01 e @ [CHR 0x0A]"
| "render (METHOD_line p c n a) =
     ''METHOD|'' @ p @ ''|'' @ c @ ''|'' @ py_str n @ ''|'' @ flag01 a @ [CHR 0x0A]"
| "render (FUNC_line p n a e) =
     ''FUNC|'' @ p @ ''|'' @ py_str n @ ''|'' @ flag01 a @ ''|'' @ flag01 e @ [CHR 0x0A]"

definition written :: "line list \<Rightarrow> string" where
  "written ls = concat (map render ls)"

section \<open>The analysis on a store of list objects\<close>

text \<open>
  The functions above return the record of the analysis as a value. The program builds it
  by mutation: \<open>FileAnalysis()\<close> makes five new list objects (the fields have
  \<open>default_factory=list\<close>), \<open>methods = []\<close> makes a new list for each class match, every
  \<open>append\<close> changes one list object in place, and a \<open>ClassInfo\<close> holds its list of
  methods by reference. The store maps the address of a list object to its elements;
  \<open>fresh\<close> is the first address not yet given out. The functions \<open>st_\<close> below are the
  same loops, run on the store; \<open>snapshot\<close> reads the record of an analysis object off
  the store.
\<close>

datatype val = StrVal string | TypeVal TypeInfo | FuncVal FunctionInfo | ClassVal string nat bool

record store =
  cells :: "nat \<Rightarrow> val list"
  fresh :: nat

definition new_list :: "store \<Rightarrow> nat \<times> store" where
  "new_list st = (fresh st, st\<lparr>cells := (cells st)(fresh st := []), fresh := Suc (fresh st)\<rparr>)"

definition list_append :: "nat \<Rightarrow> val \<Rightarrow> store \<Rightarrow> store" where
  "list_append r v st = st\<lparr>cells := (cells st)(r := cells st r @ [v])\<rparr>"

record FileAnalysis_obj =
  imports_at :: nat
  exports_at :: nat
  classes_at :: nat
  functions_at :: nat
  types_at :: nat
  has_tests_o :: bool

definition FileAnalysis_obj_new :: "store \<Rightarrow> FileAnalysis_obj \<times> store" where
  "FileAnalysis_obj_new st =
     (let (i, st1) = new_list st; (e, st2) = new_list st1; (c, st3) = new_list st2;
          (f, st4) = new_list st3; (t, st5) = new_list st4
      in (\<lparr>imports_at = i, exports_at = e, classes_at = c, functions_at = f, types_at = t,
           has_tests_o = False\<rparr>, st5))"

fun strs_of :: "val list \<Rightarrow> string list" where
  "strs_of [] = []"
| "strs_of (StrVal s # vs) = s # strs_of vs"
| "strs_of (_ # vs) = strs_of vs"

fun typs_of :: "val list \<Rightarrow> TypeInfo list" where
  "typs_of [] = []"
| "typs_of (TypeVal t # vs) = t # typs_of vs"
| "typs_of (_ # vs) = typs_of vs"

fun funs_of :: "val list \<Rightarrow> FunctionInfo list" where
  "funs_of [] = []"
| "funs_of (FuncVal f # vs) = f # funs_of vs"
| "funs_of (_ # vs) = funs_of vs"

fun clss_of :: "store \<Rightarrow> val list \<Rightarrow> ClassInfo list" where
  "clss_of st [] = []"
| "clss_of st (ClassVal n a e # vs) =
     \<lparr>name_c = n, methods = funs_of (cells st a), is_exported_c = e\<rparr> # clss_of st vs"
| "clss_of st (_ # vs) = clss_of st vs"

definition snapshot :: "store \<Rightarrow> FileAnalysis_obj \<Rightarrow> FileAnalysis" where
  "snapshot st an =
     \<lparr>imports_a = strs_of (cells st (imports_at an)),
      exports_a = strs_of (cells st (exports_at an)),
      classes_a = clss_of st (cells st (classes_at an)),
      functions_a = funs_of (cells st (functions_at an)),
      types_a = typs_of (cells st (types_at an)),
      has_tests = has_tests_o an\<rparr>"

definition st_ts_import_step :: "nat \<Rightarrow> match_obj \<Rightarrow> store \<Rightarrow> error + store" where
  "st_ts_import_step r mo st =
     ebind (group_n mo 1) (\<lambda>g. ebind (str_of g) (\<lambda>import_path.
       Inr (list_append r (StrVal import_path) st)))"

definition st_export_step :: "nat \<Rightarrow> match_obj \<Rightarrow> store \<Rightarrow> error + store" where
  "st_export_step r mo st =
     ebind (group_n mo 1) (\<lambda>g. ebind (str_of g) (\<lambda>n. Inr (list_append r (StrVal n) st)))"

definition st_default_export_step :: "nat \<Rightarrow> match_obj \<Rightarrow> store \<Rightarrow> error + store" where
  "st_default_export_step r mo st =
     ebind (group_n mo 1) (\<lambda>g. Inr (list_append r (StrVal (''default: '' @ py_str g)) st))"

definition st_type_step :: "nat \<Rightarrow> string \<Rightarrow> match_obj \<Rightarrow> store \<Rightarrow> error + store" where
  "st_type_step r k mo st =
     ebind (group_n mo 1) (\<lambda>g1. ebind (group_n mo 2) (\<lambda>g2. ebind (str_of g2) (\<lambda>n.
       Inr (list_append r (TypeVal \<lparr>name_t = n, kind = k, is_exported_t = (g1 \<noteq> None)\<rparr>) st))))"

definition st_ts_method_step :: "string \<Rightarrow> nat \<Rightarrow> match_obj \<Rightarrow> store \<Rightarrow> error + store" where
  "st_ts_method_step class_name r mm st =
     ebind (group_n mm 1) (\<lambda>g1.
     ebind (group_n mm 2) (\<lambda>method_name.
     ebind (group_n mm 3) (\<lambda>g3. ebind (strip_of g3) (\<lambda>params.
     ebind (group_n mm 4) (\<lambda>g4. ebind (strip_if_truthy g4) (\<lambda>return_type.
       if method_name \<in> set [Some ''constructor'', Some class_name] then Inr st
       else Inr (list_append r (FuncVal \<lparr>name = method_name,
                   signature = ts_signature params return_type,
                   is_async = (g1 \<noteq> None), is_exported = False\<rparr>) st)))))))"

definition st_ts_class_step :: "string \<Rightarrow> nat \<Rightarrow> match_obj \<Rightarrow> store \<Rightarrow> error + store" where
  "st_ts_class_step content r mo st =
     ebind (group_n mo 1) (\<lambda>g1. ebind (group_n mo 2) (\<lambda>g2. ebind (str_of g2) (\<lambda>class_name.
       let class_pos = m_end mo;
           class_section = take 2000 (drop class_pos content);
           (ms, st1) = new_list st
       in ebind (foldE (st_ts_method_step class_name ms)
                   (finditer ts_method_pattern class_section) st1)
            (\<lambda>st2. Inr (list_append r (ClassVal class_name ms (g1 \<noteq> None)) st2)))))"

definition st_func_step :: "nat \<Rightarrow> match_obj \<Rightarrow> store \<Rightarrow> error + store" where
  "st_func_step r mo st =
     (let gs = groups mo in
      if length gs = 5 then
        ebind (item gs 0) (\<lambda>g0. ebind (item gs 1) (\<lambda>g1. ebind (item gs 2) (\<lambda>func_name.
        ebind (item gs 3) (\<lambda>g3. ebind (strip_of g3) (\<lambda>params.
        ebind (item gs 4) (\<lambda>g4. ebind (strip_if_truthy g4) (\<lambda>return_type.
          Inr (list_append r (FuncVal \<lparr>name = func_name,
                 signature = ts_signature params return_type,
                 is_async = (g1 \<noteq> None), is_exported = (g0 \<noteq> None)\<rparr>) st))))))))
      else
        ebind (item gs 0) (\<lambda>g0. ebind (item gs 1) (\<lambda>func_name. ebind (item gs 2) (\<lambda>g2.
        ebind (item gs 3) (\<lambda>g3. ebind (strip_of g3) (\<lambda>params.
        ebind (item gs 4) (\<lambda>g4. ebind (strip_if_truthy g4) (\<lambda>return_type.
          Inr (list_append r (FuncVal \<lparr>name = func_name,
                 signature = ts_signature params return_type,
                 is_async = (g2 \<noteq> None), is_exported = (g0 \<noteq> None)\<rparr>) st)))))))))"

definition st_analyze_typescript_file ::
  "string \<Rightarrow> bool \<Rightarrow> store \<Rightarrow> error + FileAnalysis_obj \<times> store" where
  "st_analyze_typescript_file content probe st =
     (let (analysis, st0) = FileAnalysis_obj_new st in
      ebind (foldE (st_ts_import_step (imports_at analysis))
               (finditer ts_import_pattern content) st0) (\<lambda>st1.
      ebind (foldE (st_export_step (exports_at analysis))
               (finditer export_pattern content) st1) (\<lambda>st2.
      ebind (foldE (st_default_export_step (exports_at analysis))
               (finditer default_export_pattern content) st2) (\<lambda>st3.
      ebind (foldE (st_type_step (types_at analysis) ''interface'')
               (finditer interface_pattern content) st3) (\<lambda>st4.
      ebind (foldE (st_type_step (types_at analysis) ''type'')
               (finditer type_pattern content) st4) (\<lambda>st5.
      ebind (foldE (st_type_step (types_at analysis) ''enum'')
               (finditer enum_pattern content) st5) (\<lambda>st6.
      ebind (foldE (st_ts_class_step content (classes_at analysis))
               (finditer ts_class_pattern content) st6) (\<lambda>st7.
      ebind (foldE (\<lambda>pattern. foldE (st_func_step (functions_at analysis))
                                    (finditer pattern content)) func_patterns st7)
        (\<lambda>st8. Inr (analysis\<lparr>has_tests_o := probe\<rparr>, st8))))))))))"

definition st_py_import_step :: "nat \<Rightarrow> match_obj \<Rightarrow> store \<Rightarrow> error + store" where
  "st_py_import_step r mo st =
     ebind (group_n mo 1) (\<lambda>g. ebind (str_of g) (\<lambda>import_path.
       Inr (list_append r (StrVal import_path) st)))"

definition st_py_method_step :: "nat \<Rightarrow> match_obj \<Rightarrow> store \<Rightarrow> error + store" where
  "st_py_method_step r mm st =
     ebind (group_n mm 0) (\<lambda>g0. ebind (str_of g0) (\<lambda>whole.
     ebind (group_n mm 1) (\<lambda>method_name.
     ebind (group_n mm 2) (\<lambda>g2. ebind (strip_of g2) (\<lambda>params.
     ebind (group_n mm 3) (\<lambda>g3. ebind (strip_if_truthy g3) (\<lambda>return_type.
     ebind (startswith method_name ''__'') (\<lambda>dunder.
       if dunder \<and> method_name \<noteq> Some ''__init__'' then Inr st
       else Inr (list_append r (FuncVal \<lparr>name = method_name,
                   signature = py_signature params return_type,
                   is_async = sublist ''async'' whole, is_exported = False\<rparr>) st)))))))))"

definition st_py_class_step :: "string \<Rightarrow> nat \<Rightarrow> match_obj \<Rightarrow> store \<Rightarrow> error + store" where
  "st_py_class_step content r mo st =
     ebind (group_n mo 1) (\<lambda>g1. ebind (str_of g1) (\<lambda>class_name.
       let class_pos = m_end mo;
           class_section = take 2000 (drop class_pos content);
           (ms, st1) = new_list st
       in ebind (foldE (st_py_method_step ms) (finditer py_method_pattern class_section) st1)
            (\<lambda>st2. Inr (list_append r (ClassVal class_name ms False) st2))))"

text \<open>
  The names \<open>[m.name for c in analysis.classes for m in c.methods]\<close>, read through the
  references of the class objects.
\<close>

definition st_method_names :: "nat \<Rightarrow> store \<Rightarrow> string option list" where
  "st_method_names rc st = concat (map (\<lambda>c. map name (methods c)) (clss_of st (cells st rc)))"

definition st_py_func_step :: "nat \<Rightarrow> nat \<Rightarrow> match_obj \<Rightarrow> store \<Rightarrow> error + store" where
  "st_py_func_step rc r mo st =
     ebind (group_n mo 0) (\<lambda>g0. ebind (str_of g0) (\<lambda>whole.
     ebind (group_n mo 1) (\<lambda>func_name.
     ebind (group_n mo 2) (\<lambda>g2. ebind (strip_of g2) (\<lambda>params.
     ebind (group_n mo 3) (\<lambda>g3. ebind (strip_if_truthy g3) (\<lambda>return_type.
       if func_name \<in> set (st_method_names rc st) then Inr st
       else Inr (list_append r (FuncVal \<lparr>name = func_name,
                   signature = py_signature params return_type,
                   is_async = sublist ''async'' whole, is_exported = False\<rparr>) st))))))))"

definition st_analyze_python_file ::
  "string \<Rightarrow> bool \<Rightarrow> store \<Rightarrow> error + FileAnalysis_obj \<times> store" where
  "st_analyze_python_file content probe st =
     (let (analysis, st0) = FileAnalysis_obj_new st in
      ebind (foldE (st_py_import_step (imports_at analysis))
               (finditer py_import_pattern content) st0) (\<lambda>st1.
      ebind (foldE (st_py_class_step content (classes_at analysis))
               (finditer py_class_pattern content) st1) (\<lambda>st2.
      ebind (foldE (st_py_func_step (classes_at analysis) (functions_at analysis))
               (finditer func_pattern content) st2) (\<lambda>st3.
        Inr (analysis\<lparr>has_tests_o := probe\<rparr>, st3)))))"

definition st_analyze_content ::
  "string \<Rightarrow> string \<Rightarrow> bool \<Rightarrow> store \<Rightarrow> error + FileAnalysis_obj \<times> store" where
  "st_analyze_content ext content probe st =
     (if ext \<in> set [''.ts'', ''.tsx'', ''.js'', ''.jsx'']
      then st_analyze_typescript_file content probe st
      else if ext = ''.py'' then st_analyze_python_file content probe st
      else (let (analysis, st0) = FileAnalysis_obj_new st
            in Inr (analysis\<lparr>has_tests_o := probe\<rparr>, st0)))"

text \<open>
  For the proofs: a list object set to given elements, the addresses of the method lists
  that a list of class objects refers to, a store that keeps what an older store had
  allocated, and an analysis object whose lists are all allocated.
\<close>

definition put_list :: "nat \<Rightarrow> val list \<Rightarrow> store \<Rightarrow> store" where
  "put_list r vs st = st\<lparr>cells := (cells st)(r := vs)\<rparr>"

text \<open>The store after a loop over class matches.\<close>

fun add_classes :: "nat \<Rightarrow> ClassInfo list \<Rightarrow> store \<Rightarrow> store" where
  "add_classes r [] st = st"
| "add_classes r (c # cs) st =
     add_classes r cs
       (list_append r (ClassVal (name_c c) (fresh st) (is_exported_c c))
          (put_list (fresh st) (map FuncVal (methods c)) (st\<lparr>fresh := Suc (fresh st)\<rparr>)))"

fun cls_addrs :: "val list \<Rightarrow> nat list" where
  "cls_addrs [] = []"
| "cls_addrs (ClassVal n a e # vs) = a # cls_addrs vs"
| "cls_addrs (_ # vs) = cls_addrs vs"

definition untouched :: "store \<Rightarrow> store \<Rightarrow> bool" where
  "untouched st st' \<longleftrightarrow> fresh st \<le> fresh st' \<and> (\<forall>a<fresh st. cells st' a = cells st a)"

definition allocated :: "store \<Rightarrow> FileAnalysis_obj \<Rightarrow> bool" where
  "allocated st an \<longleftrightarrow>
     imports_at an < fresh st \<and> exports_at an < fresh st \<and> classes_at an < fresh st \<and>
     functions_at an < fresh st \<and> types_at an < fresh st \<and>
     (\<forall>a\<in>set (cls_addrs (cells st (classes_at an))). a < fresh st)"

section \<open>The analysis without its loops\<close>

text \<open>
  What one iteration of each loop builds from its match object, and which matches the
  inner loops keep. The lemmas of the section on the analysis show that the loops compute
  the image of the list of matches under these functions.
\<close>

definition gstr :: "match_obj \<Rightarrow> nat \<Rightarrow> string" where
  "gstr mo k = (case grp mo k of None \<Rightarrow> [] | Some s \<Rightarrow> s)"

definition opt_strip :: "string option \<Rightarrow> string" where
  "opt_strip g = (case g of None \<Rightarrow> [] | Some s \<Rightarrow> strip s)"

definition type_of_match :: "string \<Rightarrow> match_obj \<Rightarrow> TypeInfo" where
  "type_of_match k mo = \<lparr>name_t = gstr mo 2, kind = k, is_exported_t = (grp mo 1 \<noteq> None)\<rparr>"

definition ts_method_of_match :: "match_obj \<Rightarrow> FunctionInfo" where
  "ts_method_of_match mm = \<lparr>name = grp mm 2,
     signature = ts_signature (opt_strip (grp mm 3)) (opt_strip (grp mm 4)),
     is_async = (grp mm 1 \<noteq> None), is_exported = False\<rparr>"

definition ts_method_kept :: "string \<Rightarrow> match_obj \<Rightarrow> bool" where
  "ts_method_kept class_name mm = (grp mm 2 \<notin> set [Some ''constructor'', Some class_name])"

definition class_section_of :: "string \<Rightarrow> match_obj \<Rightarrow> string" where
  "class_section_of content cm = take 2000 (drop (m_end cm) content)"

definition ts_class_of_match :: "string \<Rightarrow> match_obj \<Rightarrow> ClassInfo" where
  "ts_class_of_match content cm = \<lparr>name_c = gstr cm 2,
     methods = map ts_method_of_match (filter (ts_method_kept (gstr cm 2))
                 (finditer ts_method_pattern (class_section_of content cm))),
     is_exported_c = (grp cm 1 \<noteq> None)\<rparr>"

definition func_of_match :: "match_obj \<Rightarrow> FunctionInfo" where
  "func_of_match mo = \<lparr>name = grp mo 3,
     signature = ts_signature (opt_strip (grp mo 4)) (opt_strip (grp mo 5)),
     is_async = (grp mo 2 \<noteq> None), is_exported = (grp mo 1 \<noteq> None)\<rparr>"

definition py_def_of_match :: "match_obj \<Rightarrow> FunctionInfo" where
  "py_def_of_match mo = \<lparr>name = grp mo 1,
     signature = py_signature (opt_strip (grp mo 2)) (opt_strip (grp mo 3)),
     is_async = sublist ''async'' (group0 mo), is_exported = False\<rparr>"

definition dunder :: "string option \<Rightarrow> bool" where
  "dunder g = (case g of None \<Rightarrow> False | Some s \<Rightarrow> prefix ''__'' s)"

definition py_method_kept :: "match_obj \<Rightarrow> bool" where
  "py_method_kept mm = (\<not> (dunder (grp mm 1) \<and> grp mm 1 \<noteq> Some ''__init__''))"

definition py_class_of_match :: "string \<Rightarrow> match_obj \<Rightarrow> ClassInfo" where
  "py_class_of_match content cm = \<lparr>name_c = gstr cm 1,
     methods = map py_def_of_match (filter py_method_kept
                 (finditer py_method_pattern (class_section_of content cm))),
     is_exported_c = False\<rparr>"

definition method_names :: "ClassInfo list \<Rightarrow> string option list" where
  "method_names cs = concat (map (\<lambda>c. map name (methods c)) cs)"


section \<open>Properties of the matcher\<close>

lemma self_in_reps: "s \<in> set (reps p s)"
  by (cases s) auto

lemma reps_iff: "t \<in> set (reps p s) \<longleftrightarrow> (\<exists>w. s = w @ t \<and> (\<forall>x\<in>set w. p x))"
proof (induction s)
  case Nil
  show ?case by auto
next
  case (Cons x xs)
  show ?case
  proof
    assume "t \<in> set (reps p (x # xs))"
    then consider "t = x # xs" | "p x" "t \<in> set (reps p xs)"
      by (auto split: if_splits)
    then show "\<exists>w. x # xs = w @ t \<and> (\<forall>x\<in>set w. p x)"
    proof cases
      case 1
      then show ?thesis by (intro exI[of _ "[]"]) simp
    next
      case 2
      with Cons obtain w where "xs = w @ t" "\<forall>x\<in>set w. p x" by auto
      with 2 show ?thesis by (intro exI[of _ "x # w"]) simp
    qed
  next
    assume "\<exists>w. x # xs = w @ t \<and> (\<forall>x\<in>set w. p x)"
    then obtain w where w: "x # xs = w @ t" "\<forall>x\<in>set w. p x" by auto
    show "t \<in> set (reps p (x # xs))"
    proof (cases w)
      case Nil
      with w show ?thesis by (simp add: self_in_reps)
    next
      case (Cons y ys)
      with w have "p x" "xs = ys @ t" "\<forall>x\<in>set ys. p x" by auto
      with Cons.IH show ?thesis by auto
    qed
  qed
qed

lemma m_Lit_iff: "(c', s') \<in> set (m (Lit l) s c) \<longleftrightarrow> c' = c \<and> s = l @ s'"
  by (auto simp: prefix_def)

lemma m_Cls_iff: "(c', s') \<in> set (m (Cls p) s c) \<longleftrightarrow> c' = c \<and> (\<exists>x. s = x # s' \<and> p x)"
  by (cases s) auto

lemma m_Star_iff:
  "(c', s') \<in> set (m (Star p) s c) \<longleftrightarrow> c' = c \<and> (\<exists>w. s = w @ s' \<and> (\<forall>x\<in>set w. p x))"
  by (auto simp: reps_iff)

lemma m_LazyStar_iff:
  "(c', s') \<in> set (m (LazyStar p) s c) \<longleftrightarrow> c' = c \<and> (\<exists>w. s = w @ s' \<and> (\<forall>x\<in>set w. p x))"
  by (auto simp: reps_iff)

lemma m_Seq_iff:
  "(c', s') \<in> set (m (Seq a b) s c) \<longleftrightarrow>
     (\<exists>c1 s1. (c1, s1) \<in> set (m a s c) \<and> (c', s') \<in> set (m b s1 c1))"
  by auto

lemma m_plus_iff:
  "(c', s') \<in> set (m (one_or_more p) s c) \<longleftrightarrow>
     c' = c \<and> (\<exists>w. w \<noteq> [] \<and> s = w @ s' \<and> (\<forall>x\<in>set w. p x))"
proof -
  have "(c', s') \<in> set (m (one_or_more p) s c) \<longleftrightarrow>
        c' = c \<and> (\<exists>x w. s = x # w @ s' \<and> p x \<and> (\<forall>y\<in>set w. p y))"
    unfolding one_or_more_def m_Seq_iff m_Cls_iff m_Star_iff by auto
  also have "\<dots> \<longleftrightarrow> c' = c \<and> (\<exists>w. w \<noteq> [] \<and> s = w @ s' \<and> (\<forall>x\<in>set w. p x))"
  proof (intro conj_cong refl iffI)
    assume "\<exists>x w. s = x # w @ s' \<and> p x \<and> (\<forall>y\<in>set w. p y)"
    then obtain x w where "s = x # w @ s'" "p x" "\<forall>y\<in>set w. p y" by auto
    then show "\<exists>w. w \<noteq> [] \<and> s = w @ s' \<and> (\<forall>x\<in>set w. p x)"
      by (intro exI[of _ "x # w"]) simp
  next
    assume "\<exists>w. w \<noteq> [] \<and> s = w @ s' \<and> (\<forall>x\<in>set w. p x)"
    then obtain w where w: "w \<noteq> []" "s = w @ s'" "\<forall>x\<in>set w. p x" by auto
    then obtain x w' where "w = x # w'" by (cases w) auto
    with w show "\<exists>x w. s = x # w @ s' \<and> p x \<and> (\<forall>y\<in>set w. p y)" by auto
  qed
  finally show ?thesis .
qed

lemma m_Grp_iff:
  "(c', s') \<in> set (m (Grp i a) s c) \<longleftrightarrow>
     (\<exists>c1. (c1, s') \<in> set (m a s c) \<and> c' = c1(i \<mapsto> take (length s - length s') s))"
  by auto

lemma m_suffix: "(c', s') \<in> set (m r s c) \<Longrightarrow> \<exists>w. s = w @ s'"
proof (induction r arbitrary: s c c' s')
  case (Seq a b)
  then obtain c1 s1 where 1: "(c1, s1) \<in> set (m a s c)" and 2: "(c', s') \<in> set (m b s1 c1)"
    unfolding m_Seq_iff by blast
  from Seq.IH(1)[OF 1] Seq.IH(2)[OF 2] show ?case by auto
qed (auto simp: reps_iff prefix_def split: if_splits list.splits)

lemma m_mono: "(c', s') \<in> set (m r s c) \<Longrightarrow> c i \<noteq> None \<Longrightarrow> c' i \<noteq> None"
proof (induction r arbitrary: s c c' s')
  case (Seq a b)
  then obtain c1 s1 where 1: "(c1, s1) \<in> set (m a s c)" and 2: "(c', s') \<in> set (m b s1 c1)"
    unfolding m_Seq_iff by blast
  from Seq.IH(1)[OF 1 Seq.prems(2)] Seq.IH(2)[OF 2] show ?case by auto
qed (auto split: if_splits list.splits)

lemma m_must: "(c', s') \<in> set (m r s c) \<Longrightarrow> i \<in> must r \<Longrightarrow> c' i \<noteq> None"
proof (induction r arbitrary: s c c' s')
  case (Seq a b)
  then obtain c1 s1 where 1: "(c1, s1) \<in> set (m a s c)" and 2: "(c', s') \<in> set (m b s1 c1)"
    unfolding m_Seq_iff by blast
  show ?case
  proof (cases "i \<in> must b")
    case True
    from Seq.IH(2)[OF 2 True] show ?thesis .
  next
    case False
    with Seq.prems have "i \<in> must a" by simp
    from Seq.IH(1)[OF 1 this] have "c1 i \<noteq> None" .
    from m_mono[OF 2 this] show ?thesis .
  qed
qed (auto split: if_splits list.splits)

lemma search_sound:
  "search r adv pos s = Some (st, s0, c, s') \<Longrightarrow>
     (c, s') \<in> set (m r s0 Map.empty) \<and> (\<exists>pre. s = pre @ s0 \<and> st = pos + length pre)"
proof (induction r adv pos s rule: search.induct)
  case (1 r adv pos s)
  show ?case
  proof (cases "candidates r adv s")
    case Nil
    then have unf: "search r adv pos s =
        (case s of [] \<Rightarrow> None | x # xs \<Rightarrow> search r False (Suc pos) xs)"
      by (subst search.simps) simp
    show ?thesis
    proof (cases s)
      case Nil2: Nil
      with unf "1.prems" show ?thesis by simp
    next
      case (Cons x xs)
      with unf "1.prems" have rec: "search r False (Suc pos) xs = Some (st, s0, c, s')"
        by simp
      from "1.IH"[OF Nil Cons rec] obtain pre where
        "(c, s') \<in> set (m r s0 Map.empty)" "xs = pre @ s0" "st = Suc pos + length pre" by auto
      with Cons show ?thesis by (intro conjI exI[of _ "x # pre"]) auto
    qed
  next
    case (Cons a list)
    obtain c1 s1 where a: "a = (c1, s1)" by (cases a)
    have "(c1, s1) \<in> set (candidates r adv s)" using Cons a by simp
    then have "(c1, s1) \<in> set (m r s Map.empty)"
      by (auto simp: candidates_def split: if_splits)
    moreover have "search r adv pos s = Some (pos, s, c1, s1)"
      using Cons a by (subst search.simps) simp
    then have "st = pos \<and> s0 = s \<and> c = c1 \<and> s' = s1"
      using "1.prems" by simp
    ultimately show ?thesis by auto
  qed
qed

lemma finditer_from_is_match:
  "mo \<in> set (finditer_from r adv pos s) \<Longrightarrow> content = before @ s \<Longrightarrow> pos = length before \<Longrightarrow>
     is_match r content mo"
proof (induction r adv pos s arbitrary: before rule: finditer_from.induct)
  case (1 r adv pos s)
  note unf = finditer_from.simps[of r adv pos s]
  show ?case
  proof (cases "search r adv pos s")
    case None
    with "1.prems"(1) show ?thesis unfolding unf by simp
  next
    case (Some t)
    obtain st s0 c s' where t: "t = (st, s0, c, s')" by (cases t)
    from search_sound[OF Some[unfolded t]] obtain pre where
      mem: "(c, s') \<in> set (m r s0 Map.empty)" and s: "s = pre @ s0" and st: "st = pos + length pre"
      by auto
    from m_suffix[OF mem] obtain w where w: "s0 = w @ s'" by auto
    let ?mo = "\<lparr>group0 = take (length s0 - length s') s0, grp = c, m_ngroups = ngroups r,
           m_start = st, m_end = st + (length s0 - length s')\<rparr>"
    from "1.prems"(1) Some t
    consider "mo = ?mo"
      | "mo \<in> set (finditer_from r (length s0 - length s' = 0) (st + (length s0 - length s')) s')"
      unfolding unf by auto
    then show ?thesis
    proof cases
      case 1
      have "content = (before @ pre) @ w @ s'" using "1.prems" s w by simp
      then show ?thesis using 1 w mem st "1.prems"(3)
        unfolding is_match_def by (intro conjI exI[of _ "before @ pre"] exI[of _ s']) auto
    next
      case 2
      have e1: "content = (before @ pre @ w) @ s'" using "1.prems" s w by simp
      have e2: "st + (length s0 - length s') = length (before @ pre @ w)"
        using st w "1.prems"(3) by simp
      show ?thesis
        by (rule "1.IH"[OF Some t[symmetric] refl refl 2 e1 e2])
    qed
  qed
qed

lemma finditer_is_match: "mo \<in> set (finditer r content) \<Longrightarrow> is_match r content mo"
  unfolding finditer_def by (rule finditer_from_is_match[where before="[]"]) auto

lemma finditer_valid: "mo \<in> set (finditer r content) \<Longrightarrow> valid r mo"
  using finditer_is_match[of mo r content] m_must
  unfolding is_match_def valid_def by blast

section \<open>The loops of the analysis\<close>

lemma foldE_acc:
  assumes step: "\<And>x a. x \<in> set xs \<Longrightarrow>
            f x a = Inr (if skip a x then a else put (get a @ [h x]) a)"
    and get_put: "\<And>v a. get (put v a) = v"
    and put_put: "\<And>v w a. put v (put w a) = put v a"
    and put_get: "\<And>a. put (get a) a = a"
    and skip_put: "\<And>v a x. skip (put v a) x = skip a x"
  shows "foldE f xs a = Inr (put (get a @ map h (filter (\<lambda>x. \<not> skip a x) xs)) a)"
  using step
proof (induction xs arbitrary: a)
  case Nil
  show ?case by (simp add: put_get)
next
  case (Cons x xs)
  have fx: "f x a = Inr (if skip a x then a else put (get a @ [h x]) a)"
    by (rule Cons.prems) simp
  have rest: "\<And>b. foldE f xs b = Inr (put (get b @ map h (filter (\<lambda>x. \<not> skip b x) xs)) b)"
    by (rule Cons.IH) (simp add: Cons.prems)
  show ?case
    by (cases "skip a x") (simp_all add: fx rest get_put put_put skip_put)
qed

lemma strip_if_truthy_eq: "strip_if_truthy g = Inr (opt_strip g)"
  by (cases g) (auto simp: strip_if_truthy_def truthy_def strip_of_def opt_strip_def strip_def)

lemma group_valid:
  "valid r mo \<Longrightarrow> 0 < k \<Longrightarrow> k \<le> ngroups r \<Longrightarrow> group_n mo k = Inr (grp mo k)"
  by (simp add: valid_def group_n_def)

lemma group_zero: "group_n mo 0 = Inr (Some (group0 mo))"
  by (simp add: group_n_def)

lemma must_Some: "valid r mo \<Longrightarrow> k \<in> must r \<Longrightarrow> grp mo k = Some (gstr mo k)"
  by (auto simp: valid_def gstr_def split: option.splits)

lemmas pattern_defs = ts_import_pattern_def export_pattern_def default_export_pattern_def
  interface_pattern_def type_pattern_def enum_pattern_def ts_class_pattern_def
  ts_method_pattern_def function_pattern_def arrow_pattern_def py_import_pattern_def py_class_pattern_def
  py_method_pattern_def func_pattern_def opt_export_def one_or_more_def

lemma ts_import_step_eq:
  assumes "valid ts_import_pattern mo"
  shows "ts_import_step mo a = Inr (a\<lparr>imports_a := imports_a a @ [gstr mo 1]\<rparr>)"
proof -
  have "group_n mo 1 = Inr (grp mo 1)" by (rule group_valid[OF assms]) (simp_all add: pattern_defs)
  moreover have "grp mo 1 = Some (gstr mo 1)" by (rule must_Some[OF assms]) (simp add: pattern_defs)
  ultimately show ?thesis by (simp add: ts_import_step_def ebind_def str_of_def)
qed

lemma ts_imports_eq:
  "foldE ts_import_step (finditer ts_import_pattern content) a =
     Inr (a\<lparr>imports_a := imports_a a @ map (\<lambda>mo. gstr mo 1) (finditer ts_import_pattern content)\<rparr>)"
  using foldE_acc[where f=ts_import_step and skip="\<lambda>_ _. False" and get=imports_a
      and put="\<lambda>v a. a\<lparr>imports_a := v\<rparr>" and h="\<lambda>mo. gstr mo 1"
      and xs="finditer ts_import_pattern content" and a=a]
  by (simp add: ts_import_step_eq finditer_valid)

lemma export_step_eq:
  assumes "valid export_pattern mo"
  shows "export_step mo a = Inr (a\<lparr>exports_a := exports_a a @ [gstr mo 1]\<rparr>)"
proof -
  have "group_n mo 1 = Inr (grp mo 1)" by (rule group_valid[OF assms]) (simp_all add: pattern_defs)
  moreover have "grp mo 1 = Some (gstr mo 1)" by (rule must_Some[OF assms]) (simp add: pattern_defs)
  ultimately show ?thesis by (simp add: export_step_def ebind_def str_of_def)
qed

lemma exports_eq:
  "foldE export_step (finditer export_pattern content) a =
     Inr (a\<lparr>exports_a := exports_a a @ map (\<lambda>mo. gstr mo 1) (finditer export_pattern content)\<rparr>)"
  using foldE_acc[where f=export_step and skip="\<lambda>_ _. False" and get=exports_a
      and put="\<lambda>v a. a\<lparr>exports_a := v\<rparr>" and h="\<lambda>mo. gstr mo 1"
      and xs="finditer export_pattern content" and a=a]
  by (simp add: export_step_eq finditer_valid)

lemma default_export_step_eq:
  assumes "valid default_export_pattern mo"
  shows "default_export_step mo a =
           Inr (a\<lparr>exports_a := exports_a a @ [''default: '' @ py_str (grp mo 1)]\<rparr>)"
proof -
  have "group_n mo 1 = Inr (grp mo 1)" by (rule group_valid[OF assms]) (simp_all add: pattern_defs)
  then show ?thesis by (simp add: default_export_step_def ebind_def)
qed

lemma default_exports_eq:
  "foldE default_export_step (finditer default_export_pattern content) a =
     Inr (a\<lparr>exports_a := exports_a a @
            map (\<lambda>mo. ''default: '' @ py_str (grp mo 1)) (finditer default_export_pattern content)\<rparr>)"
  using foldE_acc[where f=default_export_step and skip="\<lambda>_ _. False" and get=exports_a
      and put="\<lambda>v a. a\<lparr>exports_a := v\<rparr>" and h="\<lambda>mo. ''default: '' @ py_str (grp mo 1)"
      and xs="finditer default_export_pattern content" and a=a]
  by (simp add: default_export_step_eq finditer_valid)

lemma type_step_eq:
  assumes "valid r mo" "ngroups r = 2" "2 \<in> must r"
  shows "type_step k mo a = Inr (a\<lparr>types_a := types_a a @ [type_of_match k mo]\<rparr>)"
proof -
  have "group_n mo 1 = Inr (grp mo 1)" "group_n mo 2 = Inr (grp mo 2)"
    by (rule group_valid[OF assms(1)]; simp add: assms)+
  moreover have "grp mo 2 = Some (gstr mo 2)" by (rule must_Some[OF assms(1,3)])
  ultimately show ?thesis by (simp add: type_step_def ebind_def str_of_def type_of_match_def)
qed

lemma types_eq:
  assumes "ngroups r = 2" "2 \<in> must r"
  shows "foldE (type_step k) (finditer r content) a =
     Inr (a\<lparr>types_a := types_a a @ map (type_of_match k) (finditer r content)\<rparr>)"
  using foldE_acc[where f="type_step k" and skip="\<lambda>_ _. False" and get=types_a
      and put="\<lambda>v a. a\<lparr>types_a := v\<rparr>" and h="type_of_match k"
      and xs="finditer r content" and a=a]
  by (simp add: type_step_eq[OF _ assms] finditer_valid)

lemma ts_method_step_eq:
  assumes "valid ts_method_pattern mm"
  shows "ts_method_step cn mm ms =
           Inr (if \<not> ts_method_kept cn mm then ms else ms @ [ts_method_of_match mm])"
proof -
  have "group_n mm 1 = Inr (grp mm 1)" "group_n mm 2 = Inr (grp mm 2)"
       "group_n mm 3 = Inr (grp mm 3)" "group_n mm 4 = Inr (grp mm 4)"
    by (rule group_valid[OF assms]; simp add: pattern_defs)+
  moreover have "grp mm 3 = Some (gstr mm 3)"
    by (rule must_Some[OF assms]) (simp add: pattern_defs)
  ultimately show ?thesis
    by (simp add: ts_method_step_def ebind_def strip_of_def strip_if_truthy_eq
          ts_method_kept_def ts_method_of_match_def opt_strip_def)
qed

lemma ts_methods_eq:
  "ts_methods cn w =
     Inr (map ts_method_of_match (filter (ts_method_kept cn) (finditer ts_method_pattern w)))"
  unfolding ts_methods_def
  using foldE_acc[where f="ts_method_step cn" and skip="\<lambda>_ mm. \<not> ts_method_kept cn mm"
      and get="\<lambda>a. a" and put="\<lambda>v a. v" and h=ts_method_of_match
      and xs="finditer ts_method_pattern w" and a="[]"]
  by (simp add: ts_method_step_eq finditer_valid)

lemma ts_class_step_eq:
  assumes "valid ts_class_pattern mo"
  shows "ts_class_step content mo a =
           Inr (a\<lparr>classes_a := classes_a a @ [ts_class_of_match content mo]\<rparr>)"
proof -
  have "group_n mo 1 = Inr (grp mo 1)" "group_n mo 2 = Inr (grp mo 2)"
    by (rule group_valid[OF assms]; simp add: pattern_defs)+
  moreover have "grp mo 2 = Some (gstr mo 2)"
    by (rule must_Some[OF assms]) (simp add: pattern_defs)
  ultimately show ?thesis
    by (simp add: ts_class_step_def ebind_def str_of_def ts_methods_eq ts_class_of_match_def
          class_section_of_def)
qed

lemma ts_classes_eq:
  "foldE (ts_class_step content) (finditer ts_class_pattern content) a =
     Inr (a\<lparr>classes_a := classes_a a @
            map (ts_class_of_match content) (finditer ts_class_pattern content)\<rparr>)"
  using foldE_acc[where f="ts_class_step content" and skip="\<lambda>_ _. False" and get=classes_a
      and put="\<lambda>v a. a\<lparr>classes_a := v\<rparr>" and h="ts_class_of_match content"
      and xs="finditer ts_class_pattern content" and a=a]
  by (simp add: ts_class_step_eq finditer_valid)

lemma groups_5:
  "m_ngroups mo = 5 \<Longrightarrow> groups mo = [grp mo 1, grp mo 2, grp mo 3, grp mo 4, grp mo 5]"
  by (simp add: groups_def upt_rec eval_nat_numeral)

lemma func_step_eq:
  assumes "valid r mo" "ngroups r = 5" "4 \<in> must r"
  shows "func_step mo a = Inr (a\<lparr>functions_a := functions_a a @ [func_of_match mo]\<rparr>)"
proof -
  have "m_ngroups mo = 5" using assms by (simp add: valid_def)
  note g = groups_5[OF this]
  have "grp mo 4 = Some (gstr mo 4)" by (rule must_Some[OF assms(1,3)])
  then show ?thesis
    by (simp add: func_step_def g item_def ebind_def strip_of_def strip_if_truthy_eq
          func_of_match_def opt_strip_def)
qed

lemma funcs_eq:
  assumes "ngroups r = 5" "4 \<in> must r"
  shows "foldE func_step (finditer r content) a =
     Inr (a\<lparr>functions_a := functions_a a @ map func_of_match (finditer r content)\<rparr>)"
  using foldE_acc[where f=func_step and skip="\<lambda>_ _. False" and get=functions_a
      and put="\<lambda>v a. a\<lparr>functions_a := v\<rparr>" and h=func_of_match
      and xs="finditer r content" and a=a]
  by (simp add: func_step_eq[OF _ assms] finditer_valid)

lemma func_patterns_facts:
  "ngroups function_pattern = 5" "4 \<in> must function_pattern"
  "ngroups arrow_pattern = 5" "4 \<in> must arrow_pattern"
  by (simp_all add: pattern_defs)

text \<open>The record that \<open>analyze_typescript_file\<close> returns, written without the loops.\<close>

lemma analyze_typescript_file_eq:
  "analyze_typescript_file content probe = Inr
     \<lparr>imports_a = map (\<lambda>mo. gstr mo 1) (finditer ts_import_pattern content),
      exports_a = map (\<lambda>mo. gstr mo 1) (finditer export_pattern content) @
        map (\<lambda>mo. ''default: '' @ py_str (grp mo 1)) (finditer default_export_pattern content),
      classes_a = map (ts_class_of_match content) (finditer ts_class_pattern content),
      functions_a = map func_of_match (finditer function_pattern content) @
        map func_of_match (finditer arrow_pattern content),
      types_a = map (type_of_match ''interface'') (finditer interface_pattern content) @
        map (type_of_match ''type'') (finditer type_pattern content) @
        map (type_of_match ''enum'') (finditer enum_pattern content),
      has_tests = probe\<rparr>"
proof -
  have t: "ngroups interface_pattern = 2" "2 \<in> must interface_pattern"
    "ngroups type_pattern = 2" "2 \<in> must type_pattern"
    "ngroups enum_pattern = 2" "2 \<in> must enum_pattern"
    by (simp_all add: pattern_defs)
  have f: "foldE (\<lambda>pattern. foldE func_step (finditer pattern content)) func_patterns a =
     Inr (a\<lparr>functions_a := functions_a a @ map func_of_match (finditer function_pattern content) @
        map func_of_match (finditer arrow_pattern content)\<rparr>)" for a
    by (simp add: func_patterns_def funcs_eq[OF func_patterns_facts(1,2)]
          funcs_eq[OF func_patterns_facts(3,4)])
  show ?thesis
    unfolding analyze_typescript_file_def
    by (simp add: ts_imports_eq exports_eq default_exports_eq types_eq[OF t(1,2)]
          types_eq[OF t(3,4)] types_eq[OF t(5,6)] ts_classes_eq f ebind_def FileAnalysis_new_def)
qed

lemma py_import_step_eq:
  assumes "valid py_import_pattern mo"
  shows "py_import_step mo a = Inr (a\<lparr>imports_a := imports_a a @ [gstr mo 1]\<rparr>)"
proof -
  have "group_n mo 1 = Inr (grp mo 1)" by (rule group_valid[OF assms]) (simp_all add: pattern_defs)
  moreover have "grp mo 1 = Some (gstr mo 1)" by (rule must_Some[OF assms]) (simp add: pattern_defs)
  ultimately show ?thesis by (simp add: py_import_step_def ebind_def str_of_def)
qed

lemma py_imports_eq:
  "foldE py_import_step (finditer py_import_pattern content) a =
     Inr (a\<lparr>imports_a := imports_a a @ map (\<lambda>mo. gstr mo 1) (finditer py_import_pattern content)\<rparr>)"
  using foldE_acc[where f=py_import_step and skip="\<lambda>_ _. False" and get=imports_a
      and put="\<lambda>v a. a\<lparr>imports_a := v\<rparr>" and h="\<lambda>mo. gstr mo 1"
      and xs="finditer py_import_pattern content" and a=a]
  by (simp add: py_import_step_eq finditer_valid)

lemma py_method_step_eq:
  assumes "valid py_method_pattern mm"
  shows "py_method_step mm ms =
           Inr (if \<not> py_method_kept mm then ms else ms @ [py_def_of_match mm])"
proof -
  have "group_n mm 1 = Inr (grp mm 1)" "group_n mm 2 = Inr (grp mm 2)" "group_n mm 3 = Inr (grp mm 3)"
    by (rule group_valid[OF assms]; simp add: pattern_defs)+
  moreover have "grp mm 1 = Some (gstr mm 1)" "grp mm 2 = Some (gstr mm 2)"
    by (rule must_Some[OF assms]; simp add: pattern_defs)+
  ultimately show ?thesis
    by (simp add: py_method_step_def group_zero ebind_def str_of_def strip_of_def
          strip_if_truthy_eq startswith_def py_method_kept_def dunder_def py_def_of_match_def
          opt_strip_def)
qed

lemma py_methods_eq:
  "py_methods w =
     Inr (map py_def_of_match (filter py_method_kept (finditer py_method_pattern w)))"
  unfolding py_methods_def
  using foldE_acc[where f=py_method_step and skip="\<lambda>_ mm. \<not> py_method_kept mm"
      and get="\<lambda>a. a" and put="\<lambda>v a. v" and h=py_def_of_match
      and xs="finditer py_method_pattern w" and a="[]"]
  by (simp add: py_method_step_eq finditer_valid)

lemma py_class_step_eq:
  assumes "valid py_class_pattern mo"
  shows "py_class_step content mo a =
           Inr (a\<lparr>classes_a := classes_a a @ [py_class_of_match content mo]\<rparr>)"
proof -
  have "group_n mo 1 = Inr (grp mo 1)"
    by (rule group_valid[OF assms]; simp add: pattern_defs)
  moreover have "grp mo 1 = Some (gstr mo 1)"
    by (rule must_Some[OF assms]) (simp add: pattern_defs)
  ultimately show ?thesis
    by (simp add: py_class_step_def ebind_def str_of_def py_methods_eq py_class_of_match_def
          class_section_of_def)
qed

lemma py_classes_eq:
  "foldE (py_class_step content) (finditer py_class_pattern content) a =
     Inr (a\<lparr>classes_a := classes_a a @
            map (py_class_of_match content) (finditer py_class_pattern content)\<rparr>)"
  using foldE_acc[where f="py_class_step content" and skip="\<lambda>_ _. False" and get=classes_a
      and put="\<lambda>v a. a\<lparr>classes_a := v\<rparr>" and h="py_class_of_match content"
      and xs="finditer py_class_pattern content" and a=a]
  by (simp add: py_class_step_eq finditer_valid)

lemma py_func_step_eq:
  assumes "valid func_pattern mo"
  shows "py_func_step mo a =
           Inr (if grp mo 1 \<in> set (method_names (classes_a a)) then a
                else a\<lparr>functions_a := functions_a a @ [py_def_of_match mo]\<rparr>)"
proof -
  have "group_n mo 1 = Inr (grp mo 1)" "group_n mo 2 = Inr (grp mo 2)" "group_n mo 3 = Inr (grp mo 3)"
    by (rule group_valid[OF assms]; simp add: pattern_defs)+
  moreover have "grp mo 2 = Some (gstr mo 2)"
    by (rule must_Some[OF assms]; simp add: pattern_defs)
  ultimately show ?thesis
    by (simp add: py_func_step_def group_zero ebind_def str_of_def strip_of_def
          strip_if_truthy_eq py_def_of_match_def opt_strip_def method_names_def)
qed

lemma py_funcs_eq:
  "foldE py_func_step (finditer func_pattern content) a =
     Inr (a\<lparr>functions_a := functions_a a @ map py_def_of_match
            (filter (\<lambda>mo. grp mo 1 \<notin> set (method_names (classes_a a)))
               (finditer func_pattern content))\<rparr>)"
  using foldE_acc[where f=py_func_step
      and skip="\<lambda>a mo. grp mo 1 \<in> set (method_names (classes_a a))" and get=functions_a
      and put="\<lambda>v a. a\<lparr>functions_a := v\<rparr>" and h=py_def_of_match
      and xs="finditer func_pattern content" and a=a]
  by (simp add: py_func_step_eq finditer_valid)

text \<open>The record that \<open>analyze_python_file\<close> returns, written without the loops.\<close>

lemma analyze_python_file_eq:
  "analyze_python_file content probe = Inr
     \<lparr>imports_a = map (\<lambda>mo. gstr mo 1) (finditer py_import_pattern content),
      exports_a = [],
      classes_a = map (py_class_of_match content) (finditer py_class_pattern content),
      functions_a = map py_def_of_match
        (filter (\<lambda>mo. grp mo 1 \<notin> set (method_names
                    (map (py_class_of_match content) (finditer py_class_pattern content))))
           (finditer func_pattern content)),
      types_a = [],
      has_tests = probe\<rparr>"
  unfolding analyze_python_file_def
  by (simp add: py_imports_eq py_classes_eq py_funcs_eq ebind_def FileAnalysis_new_def)

text \<open>An arrow function as the loop records it: without a name, and asynchronous.\<close>

lemma arrow_function_example:
  "analyze_typescript_file ''const f = (x) => x'' False =
     Inr \<lparr>imports_a = [], exports_a = [], classes_a = [],
       functions_a = [\<lparr>name = None, signature = ''(x)'', is_async = True, is_exported = False\<rparr>],
       types_a = [], has_tests = False\<rparr>"
  by code_simp

section \<open>The claims about the analysis\<close>



text \<open>
  Claim C5. In \<open>analyze_python_file\<close> the list of functions holds, in the order of the
  text, every match of the \<open>def\<close> pattern whose name is not the name of a method of any
  class of the record; a match whose name is such a name is left out, wherever it stands
  in the text.
\<close>

theorem py_functions_skip_method_names:
  "\<exists>a. analyze_python_file content probe = Inr a \<and>
     functions_a a = map py_def_of_match
       (filter (\<lambda>mo. grp mo 1 \<notin> set (method_names (classes_a a))) (finditer func_pattern content)) \<and>
     map name (functions_a a) =
       filter (\<lambda>n. n \<notin> set (method_names (classes_a a)))
         (map (\<lambda>mo. grp mo 1) (finditer func_pattern content))"
proof -
  let ?cs = "map (py_class_of_match content) (finditer py_class_pattern content)"
  let ?kept = "filter (\<lambda>mo. grp mo 1 \<notin> set (method_names ?cs)) (finditer func_pattern content)"
  obtain a where a: "analyze_python_file content probe = Inr a"
    and c: "classes_a a = ?cs" and f: "functions_a a = map py_def_of_match ?kept"
    by (simp add: analyze_python_file_eq)
  have "map name (functions_a a) = map (\<lambda>mo. grp mo 1) ?kept"
    unfolding f by (simp add: py_def_of_match_def)
  also have "\<dots> = filter (\<lambda>n. n \<notin> set (method_names ?cs))
      (map (\<lambda>mo. grp mo 1) (finditer func_pattern content))"
    by (simp add: filter_map o_def)
  finally show ?thesis using a c f by auto
qed

theorem py_functions_skip_method_names_witness:
  "analyze_python_file (''def run(x): pass'' @ [CHR 0x0A] @ ''def other(): pass'' @ [CHR 0x0A] @
      ''class A:'' @ [CHR 0x0A] @ '' def run(self): pass'') False =
     Inr \<lparr>imports_a = [], exports_a = [],
       classes_a = [\<lparr>name_c = ''A'', methods =
         [\<lparr>name = Some ''run'', signature = ''(self)'', is_async = False, is_exported = False\<rparr>],
         is_exported_c = False\<rparr>],
       functions_a =
         [\<lparr>name = Some ''other'', signature = ''()'', is_async = False, is_exported = False\<rparr>],
       types_a = [], has_tests = False\<rparr> \<and>
   map (\<lambda>mo. grp mo 1) (finditer func_pattern (''def run(x): pass'' @ [CHR 0x0A] @
      ''def other(): pass'' @ [CHR 0x0A] @ ''class A:'' @ [CHR 0x0A] @ '' def run(self): pass'')) =
     [Some ''run'', Some ''other'', Some ''run'']"
proof -
  have 1: "analyze_python_file (''def run(x): pass'' @ [CHR 0x0A] @ ''def other(): pass'' @ [CHR 0x0A] @
      ''class A:'' @ [CHR 0x0A] @ '' def run(self): pass'') False =
     Inr \<lparr>imports_a = [], exports_a = [],
       classes_a = [\<lparr>name_c = ''A'', methods =
         [\<lparr>name = Some ''run'', signature = ''(self)'', is_async = False, is_exported = False\<rparr>],
         is_exported_c = False\<rparr>],
       functions_a =
         [\<lparr>name = Some ''other'', signature = ''()'', is_async = False, is_exported = False\<rparr>],
       types_a = [], has_tests = False\<rparr>" by code_simp
  have 2: "map (\<lambda>mo. grp mo 1) (finditer func_pattern (''def run(x): pass'' @ [CHR 0x0A] @
      ''def other(): pass'' @ [CHR 0x0A] @ ''class A:'' @ [CHR 0x0A] @ '' def run(self): pass'')) =
     [Some ''run'', Some ''other'', Some ''run'']" by code_simp
  from py_functions_skip_method_names[of "''def run(x): pass'' @ [CHR 0x0A] @
      ''def other(): pass'' @ [CHR 0x0A] @ ''class A:'' @ [CHR 0x0A] @ '' def run(self): pass''" False]
    1 2 show ?thesis by simp
qed




lemma list_all2_map_left: "list_all2 P (map f xs) xs \<longleftrightarrow> (\<forall>x\<in>set xs. P (f x) x)"
  by (induction xs) auto

lemma filter_METHOD_class_lines:
  "filter is_METHOD (class_lines p c) =
     map (\<lambda>f. METHOD_line p (name_c c) (name f) (is_async f)) (take 10 (methods c))"
  by (simp add: class_lines_def filter_map o_def)

text \<open>
  Claim C2, as stated, fails: the record of a class with eleven methods in its section
  holds all eleven.
\<close>

theorem ts_class_methods_counterexample:
  "map_sum id (map (map name \<circ> methods) \<circ> classes_a)
     (analyze_typescript_file ''class A { a() {} b() {} c() {} d() {} e() {} f() {} g() {} h() {} i() {} j() {} k() {} }'' False) =
   Inr [[Some ''a'', Some ''b'', Some ''c'', Some ''d'', Some ''e'', Some ''f'', Some ''g'',
         Some ''h'', Some ''i'', Some ''j'', Some ''k'']]"
  by code_simp

text \<open>
  Claim C2, amended. For every text of the script kind, each class of the record holds
  every match of the method pattern in the 2000 characters after the class match, in the
  order of the section, except those named \<open>constructor\<close> or like the class, without any
  bound on their number; the bound is on the lines: for each class the METHOD lines are
  those of its first 10 methods.
\<close>

theorem ts_class_methods:
  "\<exists>a. analyze_typescript_file content probe = Inr a \<and>
     list_all2 (\<lambda>c cm.
         methods c = map ts_method_of_match (filter (ts_method_kept (name_c c))
           (finditer ts_method_pattern (take 2000 (drop (m_end cm) content)))) \<and>
         filter is_METHOD (class_lines p c) =
           map (\<lambda>f. METHOD_line p (name_c c) (name f) (is_async f)) (take 10 (methods c)) \<and>
         length (filter is_METHOD (class_lines p c)) \<le> 10)
       (classes_a a) (finditer ts_class_pattern content)"
  by (simp add: analyze_typescript_file_eq list_all2_map_left filter_METHOD_class_lines
        ts_class_of_match_def class_section_of_def)

theorem ts_class_methods_witness:
  "analyze_typescript_file ''class A { a() {} b() {} c() {} d() {} e() {} f() {} g() {} h() {} i() {} j() {} k() {} }'' False =
     Inr \<lparr>imports_a = [], exports_a = [],
       classes_a = [\<lparr>name_c = ''A'', methods = map (\<lambda>n. \<lparr>name = Some n, signature = ''()'',
            is_async = False, is_exported = False\<rparr>)
          [''a'', ''b'', ''c'', ''d'', ''e'', ''f'', ''g'', ''h'', ''i'', ''j'', ''k''],
          is_exported_c = False\<rparr>],
       functions_a = [], types_a = [], has_tests = False\<rparr> \<and>
   filter is_METHOD (class_lines ''a.ts'' \<lparr>name_c = ''A'', methods = map (\<lambda>n. \<lparr>name = Some n,
            signature = ''()'', is_async = False, is_exported = False\<rparr>)
          [''a'', ''b'', ''c'', ''d'', ''e'', ''f'', ''g'', ''h'', ''i'', ''j'', ''k''],
          is_exported_c = False\<rparr>) =
     map (\<lambda>n. METHOD_line ''a.ts'' ''A'' (Some n) False)
       [''a'', ''b'', ''c'', ''d'', ''e'', ''f'', ''g'', ''h'', ''i'', ''j'']"
proof -
  let ?X = "''class A { a() {} b() {} c() {} d() {} e() {} f() {} g() {} h() {} i() {} j() {} k() {} }''"
  let ?c = "\<lparr>name_c = ''A'', methods = map (\<lambda>n. \<lparr>name = Some n, signature = ''()'',
            is_async = False, is_exported = False\<rparr>)
          [''a'', ''b'', ''c'', ''d'', ''e'', ''f'', ''g'', ''h'', ''i'', ''j'', ''k''],
          is_exported_c = False\<rparr>"
  have 1: "analyze_typescript_file ?X False =
     Inr \<lparr>imports_a = [], exports_a = [], classes_a = [?c],
       functions_a = [], types_a = [], has_tests = False\<rparr>" by code_simp
  from ts_class_methods[of ?X False "''a.ts''"] obtain a where
    a: "analyze_typescript_file ?X False = Inr a" and
    l: "list_all2 (\<lambda>c cm.
         methods c = map ts_method_of_match (filter (ts_method_kept (name_c c))
           (finditer ts_method_pattern (take 2000 (drop (m_end cm) ?X)))) \<and>
         filter is_METHOD (class_lines ''a.ts'' c) =
           map (\<lambda>f. METHOD_line ''a.ts'' (name_c c) (name f) (is_async f)) (take 10 (methods c)) \<and>
         length (filter is_METHOD (class_lines ''a.ts'' c)) \<le> 10)
       (classes_a a) (finditer ts_class_pattern ?X)"
    by blast
  from a 1 have "classes_a a = [?c]" by auto
  with l have "filter is_METHOD (class_lines ''a.ts'' ?c) =
      map (\<lambda>f. METHOD_line ''a.ts'' (name_c ?c) (name f) (is_async f)) (take 10 (methods ?c))"
    by (auto simp: list_all2_Cons1)
  then have "filter is_METHOD (class_lines ''a.ts'' ?c) =
     map (\<lambda>n. METHOD_line ''a.ts'' ''A'' (Some n) False)
       [''a'', ''b'', ''c'', ''d'', ''e'', ''f'', ''g'', ''h'', ''i'', ''j'']"
    by simp
  with 1 show ?thesis by blast
qed

lemma m_Opt_iff:
  "(c', s') \<in> set (m (Opt a) s c) \<longleftrightarrow> (c', s') \<in> set (m a s c) \<or> (c' = c \<and> s' = s)"
  by auto

lemma py_def_shape:
  assumes "(c, s') \<in> set (m func_pattern s Map.empty)"
  shows "\<exists>a w n w2 ps r.
           s = a @ ''def'' @ w @ n @ w2 @ ''('' @ ps @ '')'' @ r @ '':'' @ s' \<and>
           c 1 = Some n \<and> c 2 = Some ps \<and>
           (a = [] \<or> (\<exists>w0. w0 \<noteq> [] \<and> (\<forall>x\<in>set w0. is_space x) \<and> a = ''async'' @ w0)) \<and>
           w \<noteq> [] \<and> (\<forall>x\<in>set w. is_space x) \<and>
           n \<noteq> [] \<and> (\<forall>x\<in>set n. is_word x) \<and> (\<forall>x\<in>set w2. is_space x) \<and>
           (\<forall>x\<in>set ps. x \<noteq> CHR '')'') \<and>
           (r = [] \<and> c 3 = None \<or>
            (\<exists>v1 v2 t. r = v1 @ ''->'' @ v2 @ t \<and> c 3 = Some t \<and> t \<noteq> [] \<and>
               (\<forall>x\<in>set v1. is_space x) \<and> (\<forall>x\<in>set v2. is_space x) \<and>
               (\<forall>x\<in>set t. x \<noteq> CHR '':'')))"
proof -
  from assms obtain c0 s0 s1 s2 c3 s3 s4 s5 c6 s6 s7 c8 s8 where
    0: "(c0, s0) \<in> set (m (Opt (cat [Lit ''async'', one_or_more is_space])) s Map.empty)" and
    1: "s0 = ''def'' @ s1" and
    2: "\<exists>w. w \<noteq> [] \<and> s1 = w @ s2 \<and> (\<forall>x\<in>set w. is_space x)" and
    3: "(c3, s3) \<in> set (m (Grp 1 (one_or_more is_word)) s2 c0)" and
    4: "\<exists>w. s3 = w @ s4 \<and> (\<forall>x\<in>set w. is_space x)" and
    5: "s4 = ''('' @ s5" and
    6: "(c6, s6) \<in> set (m (Grp 2 (Star not_rparen)) s5 c3)" and
    7: "s6 = '')'' @ s7" and
    8: "(c8, s8) \<in> set (m (Opt (cat [Star is_space, Lit ''->'', Star is_space,
            Grp 3 (one_or_more not_colon)])) s7 c6)" and
    9: "c = c8 \<and> s8 = '':'' @ s'"
    unfolding func_pattern_def cat.simps
    unfolding m_Seq_iff[of _ _ "Opt _"] m_Seq_iff[of _ _ "Lit _"] m_Seq_iff[of _ _ "Grp _ _"]
      m_Seq_iff[of _ _ "Star _"] m_Seq_iff[of _ _ "one_or_more _"] m_Lit_iff m_Star_iff m_plus_iff
    by blast
  from 0 have c0: "c0 = Map.empty"
    and a: "\<exists>a. s = a @ s0 \<and>
      (a = [] \<or> (\<exists>w0. w0 \<noteq> [] \<and> (\<forall>x\<in>set w0. is_space x) \<and> a = ''async'' @ w0))"
    unfolding m_Opt_iff cat.simps m_Seq_iff m_Lit_iff m_plus_iff by auto
  from 3 obtain n where n: "n \<noteq> []" "s2 = n @ s3" "\<forall>x\<in>set n. is_word x"
    and c3: "c3 = c0(1 \<mapsto> take (length s2 - length s3) s2)"
    unfolding m_Grp_iff m_plus_iff by auto
  from 6 obtain ps where ps: "s5 = ps @ s6" "\<forall>x\<in>set ps. not_rparen x"
    and c6: "c6 = c3(2 \<mapsto> take (length s5 - length s6) s5)"
    unfolding m_Grp_iff m_Star_iff by auto
  have c3': "c3 = [1 \<mapsto> n]" using c3 c0 n(2) by simp
  have c6': "c6 = [1 \<mapsto> n, 2 \<mapsto> ps]" using c6 c3' ps(1) by simp
  from 8 have r: "\<exists>r. s7 = r @ s8 \<and> (r = [] \<and> c8 3 = None \<and> c8 1 = Some n \<and> c8 2 = Some ps \<or>
            (\<exists>v1 v2 t. r = v1 @ ''->'' @ v2 @ t \<and> c8 3 = Some t \<and> t \<noteq> [] \<and>
               c8 1 = Some n \<and> c8 2 = Some ps \<and>
               (\<forall>x\<in>set v1. is_space x) \<and> (\<forall>x\<in>set v2. is_space x) \<and>
               (\<forall>x\<in>set t. not_colon x)))"
    unfolding m_Opt_iff
  proof
    assume "c8 = c6 \<and> s8 = s7"
    then show ?thesis using c6' by (intro exI[of _ "[]"]) simp
  next
    assume "(c8, s8) \<in> set (m (cat [Star is_space, Lit ''->'', Star is_space,
            Grp 3 (one_or_more not_colon)]) s7 c6)"
    then obtain v1 t1 v2 t2 t where
      "s7 = v1 @ t1" "\<forall>x\<in>set v1. is_space x" "t1 = ''->'' @ t2"
      "t2 = v2 @ t @ s8" "\<forall>x\<in>set v2. is_space x" "t \<noteq> []" "\<forall>x\<in>set t. not_colon x"
      "c8 = c6(3 \<mapsto> take (length (t @ s8) - length s8) (t @ s8))"
      unfolding cat.simps m_Seq_iff m_Lit_iff m_Star_iff m_Grp_iff m_plus_iff by auto
    then show ?thesis using c6'
      by (intro exI[of _ "v1 @ ''->'' @ v2 @ t"]) auto
  qed
  from a obtain a where a': "s = a @ s0"
    "a = [] \<or> (\<exists>w0. w0 \<noteq> [] \<and> (\<forall>x\<in>set w0. is_space x) \<and> a = ''async'' @ w0)" by blast
  from 2 obtain w where w: "w \<noteq> []" "s1 = w @ s2" "\<forall>x\<in>set w. is_space x" by blast
  from 4 obtain w2 where w2: "s3 = w2 @ s4" "\<forall>x\<in>set w2. is_space x" by blast
  from r obtain r where r': "s7 = r @ s8" "c8 1 = Some n" "c8 2 = Some ps"
     "r = [] \<and> c8 3 = None \<or>
            (\<exists>v1 v2 t. r = v1 @ ''->'' @ v2 @ t \<and> c8 3 = Some t \<and> t \<noteq> [] \<and>
               (\<forall>x\<in>set v1. is_space x) \<and> (\<forall>x\<in>set v2. is_space x) \<and>
               (\<forall>x\<in>set t. not_colon x))" by blast
  have e: "s = a @ ''def'' @ w @ n @ w2 @ ''('' @ ps @ '')'' @ r @ '':'' @ s'"
    using a'(1) 1 w(2) n(2) w2(1) 5 ps(1) 7 r'(1) 9 by simp
  have g: "c 1 = Some n" "c 2 = Some ps" using 9 r'(2,3) by simp_all
  have r3: "r = [] \<and> c 3 = None \<or>
            (\<exists>v1 v2 t. r = v1 @ ''->'' @ v2 @ t \<and> c 3 = Some t \<and> t \<noteq> [] \<and>
               (\<forall>x\<in>set v1. is_space x) \<and> (\<forall>x\<in>set v2. is_space x) \<and>
               (\<forall>x\<in>set t. x \<noteq> CHR '':''))"
    using r'(4) 9 unfolding not_colon_def by simp
  have p: "\<forall>x\<in>set ps. x \<noteq> CHR '')''" using ps(2) unfolding not_rparen_def by simp
  from e g a'(2) w(1,3) n(1,3) w2(2) p r3 show ?thesis
    by (intro exI[of _ a] exI[of _ w] exI[of _ n] exI[of _ w2] exI[of _ ps] exI[of _ r] conjI)
qed

lemma py_def_match_text:
  assumes "mo \<in> set (finditer func_pattern t)"
  shows "\<exists>a w n w2 ps r.
           group0 mo = a @ ''def'' @ w @ n @ w2 @ ''('' @ ps @ '')'' @ r @ '':'' \<and>
           grp mo 1 = Some n \<and> grp mo 2 = Some ps \<and> (a = [] \<or> prefix ''async'' a)"
proof -
  from finditer_is_match[OF assms] obtain s' where
    "(grp mo, s') \<in> set (m func_pattern (group0 mo @ s') Map.empty)"
    unfolding is_match_def by blast
  from py_def_shape[OF this] obtain a w n w2 ps r where
    e: "group0 mo @ s' = a @ ''def'' @ w @ n @ w2 @ ''('' @ ps @ '')'' @ r @ '':'' @ s'"
    and g: "grp mo 1 = Some n" "grp mo 2 = Some ps"
    and a: "a = [] \<or> (\<exists>w0. w0 \<noteq> [] \<and> (\<forall>x\<in>set w0. is_space x) \<and> a = ''async'' @ w0)"
    by (elim exE conjE)
  from e have "group0 mo @ s' =
      (a @ ''def'' @ w @ n @ w2 @ ''('' @ ps @ '')'' @ r @ '':'') @ s'" by simp
  then have t: "group0 mo = a @ ''def'' @ w @ n @ w2 @ ''('' @ ps @ '')'' @ r @ '':''"
    by (simp only: append_same_eq)
  from a have "a = [] \<or> prefix ''async'' a" by (auto simp: prefix_def)
  with t g show ?thesis by blast
qed

text \<open>
  Claim C3. In \<open>analyze_python_file\<close> every function and every method of the record comes
  from one match of the \<open>def\<close> pattern (the pattern of the methods is the same), and its
  flag \<open>is_async\<close> says whether the text of that match has \<open>async\<close> as a substring. The
  text of a match runs from the optional \<open>async\<close>, or else from \<open>def\<close>, over the name, the
  parameter list and the optional return annotation to the colon. So a \<open>def\<close> without
  the keyword whose parameter is \<open>async_x\<close> is recorded as asynchronous.
\<close>

theorem py_is_async_substring:
  "(\<exists>a. analyze_python_file content probe = Inr a \<and>
      list_all2 (\<lambda>f mo. name f = grp mo 1 \<and> is_async f = sublist ''async'' (group0 mo))
        (functions_a a)
        (filter (\<lambda>mo. grp mo 1 \<notin> set (method_names (classes_a a))) (finditer func_pattern content)) \<and>
      list_all2 (\<lambda>c cm.
          list_all2 (\<lambda>f mm. name f = grp mm 1 \<and> is_async f = sublist ''async'' (group0 mm))
            (methods c)
            (filter py_method_kept (finditer py_method_pattern (take 2000 (drop (m_end cm) content)))))
        (classes_a a) (finditer py_class_pattern content)) \<and>
   py_method_pattern = func_pattern \<and>
   (\<forall>mo \<in> set (finditer func_pattern t). \<exists>a w n w2 ps r.
      group0 mo = a @ ''def'' @ w @ n @ w2 @ ''('' @ ps @ '')'' @ r @ '':'' \<and>
      grp mo 1 = Some n \<and> grp mo 2 = Some ps \<and> (a = [] \<or> prefix ''async'' a)) \<and>
   analyze_python_file ''def f(async_x): pass'' False =
     Inr \<lparr>imports_a = [], exports_a = [], classes_a = [],
       functions_a = [\<lparr>name = Some ''f'', signature = ''(async_x)'', is_async = True,
         is_exported = False\<rparr>], types_a = [], has_tests = False\<rparr>"
proof -
  have ex: "analyze_python_file ''def f(async_x): pass'' False =
     Inr \<lparr>imports_a = [], exports_a = [], classes_a = [],
       functions_a = [\<lparr>name = Some ''f'', signature = ''(async_x)'', is_async = True,
         is_exported = False\<rparr>], types_a = [], has_tests = False\<rparr>" by code_simp
  have flags: "\<exists>a. analyze_python_file content probe = Inr a \<and>
      list_all2 (\<lambda>f mo. name f = grp mo 1 \<and> is_async f = sublist ''async'' (group0 mo))
        (functions_a a)
        (filter (\<lambda>mo. grp mo 1 \<notin> set (method_names (classes_a a))) (finditer func_pattern content)) \<and>
      list_all2 (\<lambda>c cm.
          list_all2 (\<lambda>f mm. name f = grp mm 1 \<and> is_async f = sublist ''async'' (group0 mm))
            (methods c)
            (filter py_method_kept (finditer py_method_pattern (take 2000 (drop (m_end cm) content)))))
        (classes_a a) (finditer py_class_pattern content)"
    by (simp add: analyze_python_file_eq list_all2_map_left py_class_of_match_def
          class_section_of_def py_def_of_match_def)
  have same: "py_method_pattern = func_pattern"
    by (simp add: py_method_pattern_def func_pattern_def)
  have shape: "\<forall>mo \<in> set (finditer func_pattern t). \<exists>a w n w2 ps r.
      group0 mo = a @ ''def'' @ w @ n @ w2 @ ''('' @ ps @ '')'' @ r @ '':'' \<and>
      grp mo 1 = Some n \<and> grp mo 2 = Some ps \<and> (a = [] \<or> prefix ''async'' a)"
    by (intro ballI) (rule py_def_match_text)
  from flags same shape ex show ?thesis by (intro conjI)
qed

theorem py_is_async_substring_witness:
  "analyze_python_file (''class A:'' @ [CHR 0x0A] @ '' async def m(self): pass'') False =
     Inr \<lparr>imports_a = [], exports_a = [],
       classes_a = [\<lparr>name_c = ''A'', methods =
         [\<lparr>name = Some ''m'', signature = ''(self)'', is_async = True, is_exported = False\<rparr>],
         is_exported_c = False\<rparr>],
       functions_a = [], types_a = [], has_tests = False\<rparr> \<and>
   map group0 (finditer py_method_pattern ('':'' @ [CHR 0x0A] @ '' async def m(self): pass'')) =
     [''async def m(self):''] \<and>
   map group0 (finditer func_pattern ''def f(async_x): pass'') = [''def f(async_x):''] \<and>
   analyze_python_file ''def f(async_x): pass'' False =
     Inr \<lparr>imports_a = [], exports_a = [], classes_a = [],
       functions_a = [\<lparr>name = Some ''f'', signature = ''(async_x)'', is_async = True,
         is_exported = False\<rparr>], types_a = [], has_tests = False\<rparr>"
proof -
  have 1: "analyze_python_file (''class A:'' @ [CHR 0x0A] @ '' async def m(self): pass'') False =
     Inr \<lparr>imports_a = [], exports_a = [],
       classes_a = [\<lparr>name_c = ''A'', methods =
         [\<lparr>name = Some ''m'', signature = ''(self)'', is_async = True, is_exported = False\<rparr>],
         is_exported_c = False\<rparr>],
       functions_a = [], types_a = [], has_tests = False\<rparr>" by code_simp
  have 2: "map group0 (finditer py_method_pattern ('':'' @ [CHR 0x0A] @
      '' async def m(self): pass'')) = [''async def m(self):'']" by code_simp
  have 3: "map group0 (finditer func_pattern ''def f(async_x): pass'') = [''def f(async_x):'']"
    by code_simp
  from py_is_async_substring[of "''class A:'' @ [CHR 0x0A] @ '' async def m(self): pass''" False
      "''def f(async_x): pass''"]
  have 4: "analyze_python_file ''def f(async_x): pass'' False =
     Inr \<lparr>imports_a = [], exports_a = [], classes_a = [],
       functions_a = [\<lparr>name = Some ''f'', signature = ''(async_x)'', is_async = True,
         is_exported = False\<rparr>], types_a = [], has_tests = False\<rparr>"
    by (elim conjE)
  from 1 2 3 4 show ?thesis by (intro conjI)
qed

lemma take_diff_append: "take (length (w @ s) - length s) (w @ s) = w"
  by simp

lemma ts_import_shape:
  assumes "(c, s') \<in> set (m ts_import_pattern s Map.empty)"
  shows "\<exists>w1 b w2 w3 q1 p q2.
           s = ''import'' @ w1 @ b @ w2 @ ''from'' @ w3 @ [q1] @ (CHR ''.'' # p) @ [q2] @ s' \<and>
           c 1 = Some (CHR ''.'' # p) \<and>
           w1 \<noteq> [] \<and> (\<forall>x\<in>set w1. is_space x) \<and> (\<forall>x\<in>set b. x \<noteq> CHR 0x0A) \<and>
           w2 \<noteq> [] \<and> (\<forall>x\<in>set w2. is_space x) \<and>
           w3 \<noteq> [] \<and> (\<forall>x\<in>set w3. is_space x) \<and>
           is_quote q1 \<and> p \<noteq> [] \<and> (\<forall>x\<in>set p. \<not> is_quote x) \<and> is_quote q2"
proof -
  from assms obtain s1 s2 s3 s4 s5 s6 s7 s8 c8 where
    1: "s = ''import'' @ s1" and
    2: "\<exists>w. w \<noteq> [] \<and> s1 = w @ s2 \<and> (\<forall>x\<in>set w. is_space x)" and
    3: "\<exists>w. s2 = w @ s3 \<and> (\<forall>x\<in>set w. any_but_newline x)" and
    4: "\<exists>w. w \<noteq> [] \<and> s3 = w @ s4 \<and> (\<forall>x\<in>set w. is_space x)" and
    5: "s4 = ''from'' @ s5" and
    6: "\<exists>w. w \<noteq> [] \<and> s5 = w @ s6 \<and> (\<forall>x\<in>set w. is_space x)" and
    7: "\<exists>x. s6 = x # s7 \<and> is_quote x" and
    8: "(c8, s8) \<in> set (m (Grp 1 (cat [Lit ''.'', one_or_more not_quote])) s7 Map.empty)" and
    9: "c = c8 \<and> (\<exists>x. s8 = x # s' \<and> is_quote x)"
    unfolding ts_import_pattern_def cat.simps
    unfolding m_Seq_iff m_Lit_iff m_Cls_iff m_LazyStar_iff m_plus_iff
    by blast
  from 8 obtain w where w: "w \<noteq> []" "s7 = CHR ''.'' # w @ s8" "\<forall>x\<in>set w. not_quote x"
     and c8: "c8 = [1 \<mapsto> take (length s7 - length s8) s7]"
    unfolding cat.simps m_Grp_iff m_Seq_iff m_Lit_iff m_plus_iff by auto
  have c1: "c 1 = Some (CHR ''.'' # w)"
    using 9 c8 w(2) take_diff_append[of "CHR ''.'' # w" s8] by simp
  from 2 obtain w1 where w1: "w1 \<noteq> []" "s1 = w1 @ s2" "\<forall>x\<in>set w1. is_space x" by blast
  from 3 obtain b where b: "s2 = b @ s3" "\<forall>x\<in>set b. any_but_newline x" by blast
  from 4 obtain w2 where w2: "w2 \<noteq> []" "s3 = w2 @ s4" "\<forall>x\<in>set w2. is_space x" by blast
  from 6 obtain w3 where w3: "w3 \<noteq> []" "s5 = w3 @ s6" "\<forall>x\<in>set w3. is_space x" by blast
  from 7 obtain q1 where q1: "s6 = q1 # s7" "is_quote q1" by blast
  from 9 obtain q2 where q2: "s8 = q2 # s'" "is_quote q2" by blast
  have "s = ''import'' @ w1 @ b @ w2 @ ''from'' @ w3 @ [q1] @ (CHR ''.'' # w) @ [q2] @ s'"
    using 1 w1 b w2 5 w3 q1 w(2) q2 by simp
  then show ?thesis
    using c1 w1 b w2 w3 q1 q2 w unfolding any_but_newline_def not_quote_def by blast
qed

text \<open>
  Claim C6. For every text of the script kind the imports are, in order, the first groups
  of the matches of the import pattern. Each match is the word \<open>import\<close>, white space, a
  stretch without line feed, white space, \<open>from\<close>, white space and a quoted path, and
  the group is the path alone, between the quotes: it starts with a dot, goes on for at
  least one more character and holds no quote. So every entry begins with a dot, and
  \<open>import x from 'package'\<close> gives no entry.
\<close>

theorem ts_imports_relative:
  "(\<exists>a. analyze_typescript_file content probe = Inr a \<and>
      map Some (imports_a a) = map (\<lambda>mo. grp mo 1) (finditer ts_import_pattern content) \<and>
      (\<forall>mo \<in> set (finditer ts_import_pattern content). \<exists>w1 b w2 w3 q1 p q2.
         group0 mo = ''import'' @ w1 @ b @ w2 @ ''from'' @ w3 @ [q1] @ (CHR ''.'' # p) @ [q2] \<and>
         grp mo 1 = Some (CHR ''.'' # p) \<and>
         w1 \<noteq> [] \<and> (\<forall>x\<in>set w1. is_space x) \<and> (\<forall>x\<in>set b. x \<noteq> CHR 0x0A) \<and>
         w2 \<noteq> [] \<and> (\<forall>x\<in>set w2. is_space x) \<and>
         w3 \<noteq> [] \<and> (\<forall>x\<in>set w3. is_space x) \<and>
         is_quote q1 \<and> p \<noteq> [] \<and> (\<forall>x\<in>set p. \<not> is_quote x) \<and> is_quote q2) \<and>
      (\<forall>p \<in> set (imports_a a). prefix ''.'' p)) \<and>
   analyze_typescript_file (''import x from '' @ [CHR 0x27] @ ''package'' @ [CHR 0x27]) False =
     Inr \<lparr>imports_a = [], exports_a = [], classes_a = [], functions_a = [], types_a = [],
          has_tests = False\<rparr>"
proof -
  let ?ms = "finditer ts_import_pattern content"
  have shape: "\<exists>w1 b w2 w3 q1 p q2.
         group0 mo = ''import'' @ w1 @ b @ w2 @ ''from'' @ w3 @ [q1] @ (CHR ''.'' # p) @ [q2] \<and>
         grp mo 1 = Some (CHR ''.'' # p) \<and>
         w1 \<noteq> [] \<and> (\<forall>x\<in>set w1. is_space x) \<and> (\<forall>x\<in>set b. x \<noteq> CHR 0x0A) \<and>
         w2 \<noteq> [] \<and> (\<forall>x\<in>set w2. is_space x) \<and>
         w3 \<noteq> [] \<and> (\<forall>x\<in>set w3. is_space x) \<and>
         is_quote q1 \<and> p \<noteq> [] \<and> (\<forall>x\<in>set p. \<not> is_quote x) \<and> is_quote q2"
    if "mo \<in> set ?ms" for mo
  proof -
    from finditer_is_match[OF that] obtain s' where
      "(grp mo, s') \<in> set (m ts_import_pattern (group0 mo @ s') Map.empty)"
      unfolding is_match_def by blast
    from ts_import_shape[OF this] obtain w1 b w2 w3 q1 p q2 where
      e: "group0 mo @ s' =
            ''import'' @ w1 @ b @ w2 @ ''from'' @ w3 @ [q1] @ (CHR ''.'' # p) @ [q2] @ s'"
      and r: "grp mo 1 = Some (CHR ''.'' # p) \<and>
         w1 \<noteq> [] \<and> (\<forall>x\<in>set w1. is_space x) \<and> (\<forall>x\<in>set b. x \<noteq> CHR 0x0A) \<and>
         w2 \<noteq> [] \<and> (\<forall>x\<in>set w2. is_space x) \<and>
         w3 \<noteq> [] \<and> (\<forall>x\<in>set w3. is_space x) \<and>
         is_quote q1 \<and> p \<noteq> [] \<and> (\<forall>x\<in>set p. \<not> is_quote x) \<and> is_quote q2"
      by (elim exE conjE[of "_ = _ @ _"]) 
    from e have "group0 mo @ s' =
        (''import'' @ w1 @ b @ w2 @ ''from'' @ w3 @ [q1] @ (CHR ''.'' # p) @ [q2]) @ s'"
      by simp
    then have g: "group0 mo =
        ''import'' @ w1 @ b @ w2 @ ''from'' @ w3 @ [q1] @ (CHR ''.'' # p) @ [q2]"
      by (simp only: append_same_eq)
    from conjI[OF g r] show ?thesis by (intro exI, assumption)
  qed
  have grp1: "grp mo 1 = Some (gstr mo 1)" if "mo \<in> set ?ms" for mo
    by (rule must_Some[OF finditer_valid[OF that]]) (simp add: pattern_defs)
  have dots: "prefix ''.'' (gstr mo 1)" if "mo \<in> set ?ms" for mo
  proof -
    from shape[OF that] obtain p where "grp mo 1 = Some (CHR ''.'' # p)"
      by (elim exE conjE)
    with grp1[OF that] show ?thesis by simp
  qed
  have ex: "analyze_typescript_file (''import x from '' @ [CHR 0x27] @ ''package'' @ [CHR 0x27])
       False = Inr \<lparr>imports_a = [], exports_a = [], classes_a = [], functions_a = [],
          types_a = [], has_tests = False\<rparr>"
    by code_simp
  obtain a where a: "analyze_typescript_file content probe = Inr a"
    and im: "imports_a a = map (\<lambda>mo. gstr mo 1) ?ms"
    by (simp add: analyze_typescript_file_eq)
  have 1: "map Some (imports_a a) = map (\<lambda>mo. grp mo 1) ?ms"
    unfolding im using grp1 by simp
  have 2: "\<forall>p \<in> set (imports_a a). prefix ''.'' p"
    unfolding im using dots by simp
  have 3: "\<forall>mo \<in> set ?ms. \<exists>w1 b w2 w3 q1 p q2.
         group0 mo = ''import'' @ w1 @ b @ w2 @ ''from'' @ w3 @ [q1] @ (CHR ''.'' # p) @ [q2] \<and>
         grp mo 1 = Some (CHR ''.'' # p) \<and>
         w1 \<noteq> [] \<and> (\<forall>x\<in>set w1. is_space x) \<and> (\<forall>x\<in>set b. x \<noteq> CHR 0x0A) \<and>
         w2 \<noteq> [] \<and> (\<forall>x\<in>set w2. is_space x) \<and>
         w3 \<noteq> [] \<and> (\<forall>x\<in>set w3. is_space x) \<and>
         is_quote q1 \<and> p \<noteq> [] \<and> (\<forall>x\<in>set p. \<not> is_quote x) \<and> is_quote q2"
    by (intro ballI) (rule shape)
  from a 1 3 2 ex show ?thesis by (intro conjI exI[of _ a])
qed

theorem ts_imports_relative_witness:
  "analyze_typescript_file
      (''import {a, b} from '' @ [CHR 0x27] @ ''./mod'' @ [CHR 0x27] @ ''; import x from '' @
       [CHR 0x22] @ ''pkg'' @ [CHR 0x22]) False =
     Inr \<lparr>imports_a = [''./mod''], exports_a = [], classes_a = [], functions_a = [], types_a = [],
          has_tests = False\<rparr> \<and>
   map group0 (finditer ts_import_pattern
      (''import {a, b} from '' @ [CHR 0x27] @ ''./mod'' @ [CHR 0x27] @ ''; import x from '' @
       [CHR 0x22] @ ''pkg'' @ [CHR 0x22])) = [''import {a, b} from '' @ [CHR 0x27] @ ''./mod'' @ [CHR 0x27]]"
proof -
  let ?X = "''import {a, b} from '' @ [CHR 0x27] @ ''./mod'' @ [CHR 0x27] @ ''; import x from '' @
       [CHR 0x22] @ ''pkg'' @ [CHR 0x22]"
  have 1: "analyze_typescript_file ?X False =
     Inr \<lparr>imports_a = [''./mod''], exports_a = [], classes_a = [], functions_a = [], types_a = [],
          has_tests = False\<rparr>" by code_simp
  have 2: "map group0 (finditer ts_import_pattern ?X) =
     [''import {a, b} from '' @ [CHR 0x27] @ ''./mod'' @ [CHR 0x27]]" by code_simp
  from ts_imports_relative[of ?X False] 1 2 show ?thesis by blast
qed







section \<open>The caps of the index\<close>



text \<open>The text of a line starts with the tag of its kind, and of no other kind.\<close>

lemma render_tag:
  "is_FILE l \<longleftrightarrow> prefix ''FILE|'' (render l)"
  "is_IMPORT l \<longleftrightarrow> prefix ''IMPORT|'' (render l)"
  "is_EXPORT l \<longleftrightarrow> prefix ''EXPORT|'' (render l)"
  "is_TYPE l \<longleftrightarrow> prefix ''TYPE|'' (render l)"
  "is_CLASS l \<longleftrightarrow> prefix ''CLASS|'' (render l)"
  "is_METHOD l \<longleftrightarrow> prefix ''METHOD|'' (render l)"
  "is_FUNC l \<longleftrightarrow> prefix ''FUNC|'' (render l)"
  by (cases l; simp)+



section \<open>Files that cannot be read or decoded\<close>





section \<open>The store and the record\<close>

lemma list_append_put: "list_append r v st = put_list r (cells st r @ [v]) st"
  by (simp add: list_append_def put_list_def)

lemma put_list_laws:
  "cells (put_list r vs st) r = vs"
  "put_list r vs (put_list r ws st) = put_list r vs st"
  "put_list r (cells st r) st = st"
  by (simp_all add: put_list_def)

lemma st_loop:
  assumes "\<And>x st. x \<in> set xs \<Longrightarrow>
             f x st = Inr (if skip x then st else list_append r (h x) st)"
  shows "foldE f xs st =
           Inr (put_list r (cells st r @ map h (filter (\<lambda>x. \<not> skip x) xs)) st)"
  using foldE_acc[where f=f and skip="\<lambda>_. skip" and get="\<lambda>st. cells st r"
      and put="put_list r" and h=h and xs=xs and a=st]
  by (simp add: assms list_append_put put_list_laws)

lemma st_ts_imports:
  "foldE (st_ts_import_step r) (finditer ts_import_pattern content) st =
     Inr (put_list r (cells st r @ map (\<lambda>mo. StrVal (gstr mo 1)) (finditer ts_import_pattern content)) st)"
proof -
  have "st_ts_import_step r mo st = Inr (list_append r (StrVal (gstr mo 1)) st)"
    if "mo \<in> set (finditer ts_import_pattern content)" for mo st
  proof -
    note v = finditer_valid[OF that]
    have "group_n mo 1 = Inr (grp mo 1)" by (rule group_valid[OF v]) (simp_all add: pattern_defs)
    moreover have "grp mo 1 = Some (gstr mo 1)" by (rule must_Some[OF v]) (simp add: pattern_defs)
    ultimately show ?thesis by (simp add: st_ts_import_step_def ebind_def str_of_def)
  qed
  then show ?thesis
    using st_loop[where f="st_ts_import_step r" and skip="\<lambda>_. False"
        and h="\<lambda>mo. StrVal (gstr mo 1)" and xs="finditer ts_import_pattern content" and r=r and st=st]
    by simp
qed

lemma st_exports:
  "foldE (st_export_step r) (finditer export_pattern content) st =
     Inr (put_list r (cells st r @ map (\<lambda>mo. StrVal (gstr mo 1)) (finditer export_pattern content)) st)"
proof -
  have "st_export_step r mo st = Inr (list_append r (StrVal (gstr mo 1)) st)"
    if "mo \<in> set (finditer export_pattern content)" for mo st
  proof -
    note v = finditer_valid[OF that]
    have "group_n mo 1 = Inr (grp mo 1)" by (rule group_valid[OF v]) (simp_all add: pattern_defs)
    moreover have "grp mo 1 = Some (gstr mo 1)" by (rule must_Some[OF v]) (simp add: pattern_defs)
    ultimately show ?thesis by (simp add: st_export_step_def ebind_def str_of_def)
  qed
  then show ?thesis
    using st_loop[where f="st_export_step r" and skip="\<lambda>_. False"
        and h="\<lambda>mo. StrVal (gstr mo 1)" and xs="finditer export_pattern content" and r=r and st=st]
    by simp
qed

lemma st_default_exports:
  "foldE (st_default_export_step r) (finditer default_export_pattern content) st =
     Inr (put_list r (cells st r @ map (\<lambda>mo. StrVal (''default: '' @ py_str (grp mo 1)))
            (finditer default_export_pattern content)) st)"
proof -
  have "st_default_export_step r mo st =
          Inr (list_append r (StrVal (''default: '' @ py_str (grp mo 1))) st)"
    if "mo \<in> set (finditer default_export_pattern content)" for mo st
  proof -
    note v = finditer_valid[OF that]
    have "group_n mo 1 = Inr (grp mo 1)" by (rule group_valid[OF v]) (simp_all add: pattern_defs)
    then show ?thesis by (simp add: st_default_export_step_def ebind_def)
  qed
  then show ?thesis
    using st_loop[where f="st_default_export_step r" and skip="\<lambda>_. False"
        and h="\<lambda>mo. StrVal (''default: '' @ py_str (grp mo 1))"
        and xs="finditer default_export_pattern content" and r=r and st=st]
    by simp
qed

lemma st_types:
  assumes "ngroups p = 2" "2 \<in> must p"
  shows "foldE (st_type_step r k) (finditer p content) st =
     Inr (put_list r (cells st r @ map (\<lambda>mo. TypeVal (type_of_match k mo)) (finditer p content)) st)"
proof -
  have "st_type_step r k mo st = Inr (list_append r (TypeVal (type_of_match k mo)) st)"
    if "mo \<in> set (finditer p content)" for mo st
  proof -
    note v = finditer_valid[OF that]
    have "group_n mo 1 = Inr (grp mo 1)" "group_n mo 2 = Inr (grp mo 2)"
      by (rule group_valid[OF v]; simp add: assms)+
    moreover have "grp mo 2 = Some (gstr mo 2)" by (rule must_Some[OF v assms(2)])
    ultimately show ?thesis
      by (simp add: st_type_step_def ebind_def str_of_def type_of_match_def)
  qed
  then show ?thesis
    using st_loop[where f="st_type_step r k" and skip="\<lambda>_. False"
        and h="\<lambda>mo. TypeVal (type_of_match k mo)" and xs="finditer p content" and r=r and st=st]
    by simp
qed

lemma st_ts_methods:
  "foldE (st_ts_method_step cn r) (finditer ts_method_pattern w) st =
     Inr (put_list r (cells st r @ map (\<lambda>mm. FuncVal (ts_method_of_match mm))
            (filter (ts_method_kept cn) (finditer ts_method_pattern w))) st)"
proof -
  have "st_ts_method_step cn r mm st =
          Inr (if \<not> ts_method_kept cn mm then st
               else list_append r (FuncVal (ts_method_of_match mm)) st)"
    if "mm \<in> set (finditer ts_method_pattern w)" for mm st
  proof -
    note v = finditer_valid[OF that]
    have "group_n mm 1 = Inr (grp mm 1)" "group_n mm 2 = Inr (grp mm 2)"
         "group_n mm 3 = Inr (grp mm 3)" "group_n mm 4 = Inr (grp mm 4)"
      by (rule group_valid[OF v]; simp add: pattern_defs)+
    moreover have "grp mm 3 = Some (gstr mm 3)"
      by (rule must_Some[OF v]) (simp add: pattern_defs)
    ultimately show ?thesis
      by (simp add: st_ts_method_step_def ebind_def strip_of_def strip_if_truthy_eq
            ts_method_kept_def ts_method_of_match_def opt_strip_def)
  qed
  then show ?thesis
    using st_loop[where f="st_ts_method_step cn r" and skip="\<lambda>mm. \<not> ts_method_kept cn mm"
        and h="\<lambda>mm. FuncVal (ts_method_of_match mm)" and xs="finditer ts_method_pattern w"
        and r=r and st=st]
    by simp
qed

lemma st_funcs:
  assumes "ngroups p = 5" "4 \<in> must p"
  shows "foldE (st_func_step r) (finditer p content) st =
     Inr (put_list r (cells st r @ map (\<lambda>mo. FuncVal (func_of_match mo)) (finditer p content)) st)"
proof -
  have "st_func_step r mo st = Inr (list_append r (FuncVal (func_of_match mo)) st)"
    if "mo \<in> set (finditer p content)" for mo st
  proof -
    note v = finditer_valid[OF that]
    have "m_ngroups mo = 5" using v assms by (simp add: valid_def)
    note g = groups_5[OF this]
    have "grp mo 4 = Some (gstr mo 4)" by (rule must_Some[OF v assms(2)])
    then show ?thesis
      by (simp add: st_func_step_def g item_def ebind_def strip_of_def strip_if_truthy_eq
            func_of_match_def opt_strip_def)
  qed
  then show ?thesis
    using st_loop[where f="st_func_step r" and skip="\<lambda>_. False"
        and h="\<lambda>mo. FuncVal (func_of_match mo)" and xs="finditer p content" and r=r and st=st]
    by simp
qed

lemma st_ts_class_step_eq:
  assumes "valid ts_class_pattern mo"
  shows "st_ts_class_step content r mo st =
           Inr (add_classes r [ts_class_of_match content mo] st)"
proof -
  have "group_n mo 1 = Inr (grp mo 1)" "group_n mo 2 = Inr (grp mo 2)"
    by (rule group_valid[OF assms]; simp add: pattern_defs)+
  moreover have "grp mo 2 = Some (gstr mo 2)"
    by (rule must_Some[OF assms]) (simp add: pattern_defs)
  ultimately show ?thesis
    by (simp add: st_ts_class_step_def ebind_def str_of_def new_list_def st_ts_methods
          ts_class_of_match_def class_section_of_def put_list_def list_append_def o_def)
qed

lemma add_classes_append:
  "add_classes r (cs @ ds) st = add_classes r ds (add_classes r cs st)"
  by (induction cs arbitrary: st) auto

lemma st_class_loop:
  assumes "\<And>x st. x \<in> set xs \<Longrightarrow> f x st = Inr (add_classes r [h x] st)"
  shows "foldE f xs st = Inr (add_classes r (map h xs) st)"
  using assms by (induction xs arbitrary: st) auto

lemma st_ts_classes:
  "foldE (st_ts_class_step content r) (finditer ts_class_pattern content) st =
     Inr (add_classes r (map (ts_class_of_match content) (finditer ts_class_pattern content)) st)"
  by (rule st_class_loop) (simp add: st_ts_class_step_eq finditer_valid)

lemma strs_of_append [simp]: "strs_of (xs @ ys) = strs_of xs @ strs_of ys"
  by (induction xs rule: strs_of.induct) auto

lemma typs_of_append [simp]: "typs_of (xs @ ys) = typs_of xs @ typs_of ys"
  by (induction xs rule: typs_of.induct) auto

lemma funs_of_append [simp]: "funs_of (xs @ ys) = funs_of xs @ funs_of ys"
  by (induction xs rule: funs_of.induct) auto

lemma clss_of_append [simp]: "clss_of st (xs @ ys) = clss_of st xs @ clss_of st ys"
  by (induction st xs rule: clss_of.induct) auto

lemma cls_addrs_append [simp]: "cls_addrs (xs @ ys) = cls_addrs xs @ cls_addrs ys"
  by (induction xs rule: cls_addrs.induct) auto

lemma strs_of_StrVal [simp]: "strs_of (map (\<lambda>x. StrVal (f x)) xs) = map f xs"
  by (induction xs) auto

lemma typs_of_TypeVal [simp]: "typs_of (map (\<lambda>x. TypeVal (f x)) xs) = map f xs"
  by (induction xs) auto

lemma funs_of_FuncVal [simp]: "funs_of (map (\<lambda>x. FuncVal (f x)) xs) = map f xs"
  by (induction xs) auto

lemma funs_of_map_FuncVal [simp]: "funs_of (map FuncVal xs) = xs"
  by (induction xs) auto

lemma clss_of_cong:
  "(\<And>a. a \<in> set (cls_addrs vs) \<Longrightarrow> cells st2 a = cells st1 a) \<Longrightarrow> clss_of st2 vs = clss_of st1 vs"
  by (induction st1 vs rule: clss_of.induct) auto

lemma fresh_add_classes [simp]: "fresh (add_classes r cs st) = fresh st + length cs"
  by (induction cs arbitrary: st) (auto simp: list_append_def put_list_def)

lemma cells_add_classes:
  "a < fresh st \<Longrightarrow> a \<noteq> r \<Longrightarrow> cells (add_classes r cs st) a = cells st a"
proof (induction cs arbitrary: st)
  case Nil
  show ?case by simp
next
  case (Cons c cs)
  let ?st1 = "list_append r (ClassVal (name_c c) (fresh st) (is_exported_c c))
          (put_list (fresh st) (map FuncVal (methods c)) (st\<lparr>fresh := Suc (fresh st)\<rparr>))"
  have "a < fresh ?st1" using Cons.prems by (simp add: list_append_def put_list_def)
  from Cons.IH[OF this Cons.prems(2)] Cons.prems show ?case
    by (simp add: list_append_def put_list_def)
qed

lemma read_add_classes:
  assumes "r < fresh st" "\<forall>a\<in>set (cls_addrs (cells st r)). a < fresh st \<and> a \<noteq> r \<and> lo \<le> a"
    and "lo \<le> fresh st"
  shows "clss_of (add_classes r cs st) (cells (add_classes r cs st) r) =
           clss_of st (cells st r) @ cs \<and>
         (\<forall>a\<in>set (cls_addrs (cells (add_classes r cs st) r)).
             a < fresh (add_classes r cs st) \<and> a \<noteq> r \<and> lo \<le> a)"
  using assms
proof (induction cs arbitrary: st)
  case Nil
  then show ?case by simp
next
  case (Cons c cs)
  let ?a = "fresh st"
  let ?st1 = "list_append r (ClassVal (name_c c) ?a (is_exported_c c))
          (put_list ?a (map FuncVal (methods c)) (st\<lparr>fresh := Suc ?a\<rparr>))"
  have ne: "?a \<noteq> r" using Cons.prems(1) by simp
  have c1: "cells ?st1 r = cells st r @ [ClassVal (name_c c) ?a (is_exported_c c)]"
    using ne by (simp add: list_append_def put_list_def)
  have ca: "cells ?st1 ?a = map FuncVal (methods c)"
    using ne by (simp add: list_append_def put_list_def)
  have f1: "fresh ?st1 = Suc ?a" by (simp add: list_append_def put_list_def)
  have old: "clss_of ?st1 (cells st r) = clss_of st (cells st r)"
    by (rule clss_of_cong) (use Cons.prems(2) in \<open>auto simp: list_append_def put_list_def\<close>)
  have p1: "r < fresh ?st1" using Cons.prems(1) f1 by simp
  have p2: "\<forall>a\<in>set (cls_addrs (cells ?st1 r)). a < fresh ?st1 \<and> a \<noteq> r \<and> lo \<le> a"
    using Cons.prems(2,3) ne unfolding c1 f1 by auto
  have p3: "lo \<le> fresh ?st1" using Cons.prems(3) f1 by simp
  have "clss_of ?st1 (cells ?st1 r) = clss_of st (cells st r) @ [c]"
    unfolding c1 by (simp add: old ca)
  with Cons.IH[OF p1 p2 p3] show ?case by simp
qed

lemma snapshot_untouched:
  assumes "allocated st an" "untouched st st'"
  shows "snapshot st' an = snapshot st an"
proof -
  have c: "cells st' a = cells st a" if "a < fresh st" for a
    using assms(2) that by (simp add: untouched_def)
  have "clss_of st' (cells st (classes_at an)) = clss_of st (cells st (classes_at an))"
    by (rule clss_of_cong) (use assms(1) c in \<open>auto simp: allocated_def\<close>)
  then show ?thesis
    using assms(1) c by (simp add: snapshot_def allocated_def)
qed

lemma cells_put_list: "cells (put_list r vs st) a = (if a = r then vs else cells st a)"
  by (simp add: put_list_def)

lemma fresh_put_list: "fresh (put_list r vs st) = fresh st"
  by (simp add: put_list_def)

lemma FileAnalysis_obj_new_facts:
  "fst (FileAnalysis_obj_new st) =
     \<lparr>imports_at = fresh st, exports_at = fresh st + 1, classes_at = fresh st + 2,
      functions_at = fresh st + 3, types_at = fresh st + 4, has_tests_o = False\<rparr>"
  "fresh (snd (FileAnalysis_obj_new st)) = fresh st + 5"
  "cells (snd (FileAnalysis_obj_new st)) a =
     (if fresh st \<le> a \<and> a < fresh st + 5 then [] else cells st a)"
  by (auto simp: FileAnalysis_obj_new_def new_list_def)

lemma st_ts_run:
  "\<exists>an st'. st_analyze_typescript_file content probe st = Inr (an, st') \<and>
      analyze_typescript_file content probe = Inr (snapshot st' an) \<and>
      untouched st st' \<and> allocated st' an"
proof -
  have t: "ngroups interface_pattern = 2" "2 \<in> must interface_pattern"
    "ngroups type_pattern = 2" "2 \<in> must type_pattern"
    "ngroups enum_pattern = 2" "2 \<in> must enum_pattern"
    by (simp_all add: pattern_defs)
  define an where "an = fst (FileAnalysis_obj_new st)"
  define st0 where "st0 = snd (FileAnalysis_obj_new st)"
  define st1 where "st1 = put_list (imports_at an) (cells st0 (imports_at an) @
      map (\<lambda>mo. StrVal (gstr mo 1)) (finditer ts_import_pattern content)) st0"
  define st2 where "st2 = put_list (exports_at an) (cells st1 (exports_at an) @
      map (\<lambda>mo. StrVal (gstr mo 1)) (finditer export_pattern content)) st1"
  define st3 where "st3 = put_list (exports_at an) (cells st2 (exports_at an) @
      map (\<lambda>mo. StrVal (''default: '' @ py_str (grp mo 1)))
        (finditer default_export_pattern content)) st2"
  define st4 where "st4 = put_list (types_at an) (cells st3 (types_at an) @
      map (\<lambda>mo. TypeVal (type_of_match ''interface'' mo)) (finditer interface_pattern content)) st3"
  define st5 where "st5 = put_list (types_at an) (cells st4 (types_at an) @
      map (\<lambda>mo. TypeVal (type_of_match ''type'' mo)) (finditer type_pattern content)) st4"
  define st6 where "st6 = put_list (types_at an) (cells st5 (types_at an) @
      map (\<lambda>mo. TypeVal (type_of_match ''enum'' mo)) (finditer enum_pattern content)) st5"
  define cs where "cs = map (ts_class_of_match content) (finditer ts_class_pattern content)"
  define st7 where "st7 = add_classes (classes_at an) cs st6"
  define st8 where "st8 = put_list (functions_at an) (cells st7 (functions_at an) @
      map (\<lambda>mo. FuncVal (func_of_match mo)) (finditer function_pattern content)) st7"
  define st9 where "st9 = put_list (functions_at an) (cells st8 (functions_at an) @
      map (\<lambda>mo. FuncVal (func_of_match mo)) (finditer arrow_pattern content)) st8"
  note defs = st1_def st2_def st3_def st4_def st5_def st6_def st7_def st8_def st9_def
  have an: "imports_at an = fresh st" "exports_at an = fresh st + 1"
    "classes_at an = fresh st + 2" "functions_at an = fresh st + 3" "types_at an = fresh st + 4"
    "has_tests_o an = False"
    by (simp_all add: an_def FileAnalysis_obj_new_facts)
  have pair: "FileAnalysis_obj_new st = (an, st0)" by (simp add: an_def st0_def)
  have run: "st_analyze_typescript_file content probe st = Inr (an\<lparr>has_tests_o := probe\<rparr>, st9)"
    unfolding st_analyze_typescript_file_def pair defs cs_def
    by (simp add: st_ts_imports st_exports
          st_default_exports st_types[OF t(1,2)] st_types[OF t(3,4)] st_types[OF t(5,6)]
          st_ts_classes func_patterns_def st_funcs[OF func_patterns_facts(1,2)]
          st_funcs[OF func_patterns_facts(3,4)] ebind_def)
  have f0: "fresh st0 = fresh st + 5" by (simp add: st0_def FileAnalysis_obj_new_facts)
  have c0: "cells st0 a = (if fresh st \<le> a \<and> a < fresh st + 5 then [] else cells st a)" for a
    by (simp add: st0_def FileAnalysis_obj_new_facts)
  have f6: "fresh st6 = fresh st + 5"
    by (simp add: st1_def st2_def st3_def st4_def st5_def st6_def fresh_put_list f0)
  have c6: "cells st6 a =
      (if a = fresh st then map (\<lambda>mo. StrVal (gstr mo 1)) (finditer ts_import_pattern content)
       else if a = fresh st + 1 then
         map (\<lambda>mo. StrVal (gstr mo 1)) (finditer export_pattern content) @
         map (\<lambda>mo. StrVal (''default: '' @ py_str (grp mo 1))) (finditer default_export_pattern content)
       else if a = fresh st + 4 then
         map (\<lambda>mo. TypeVal (type_of_match ''interface'' mo)) (finditer interface_pattern content) @
         map (\<lambda>mo. TypeVal (type_of_match ''type'' mo)) (finditer type_pattern content) @
         map (\<lambda>mo. TypeVal (type_of_match ''enum'' mo)) (finditer enum_pattern content)
       else cells st0 a)" for a
    by (simp add: st1_def st2_def st3_def st4_def st5_def st6_def cells_put_list an c0)
  have c7: "cells st7 a = cells st6 a" if "a < fresh st + 5" "a \<noteq> fresh st + 2" for a
    unfolding st7_def by (rule cells_add_classes) (use that in \<open>simp_all add: f6 an\<close>)
  have r7: "clss_of st7 (cells st7 (fresh st + 2)) = cs \<and>
         (\<forall>a\<in>set (cls_addrs (cells st7 (fresh st + 2))).
            a < fresh st7 \<and> a \<noteq> fresh st + 2 \<and> fresh st + 5 \<le> a)"
    using read_add_classes[of "fresh st + 2" st6 "fresh st + 5" cs]
    by (simp add: st7_def an f6 c6 c0)
  have f7: "fresh st + 5 \<le> fresh st7" by (simp add: st7_def f6)
  have f9: "fresh st9 = fresh st7" by (simp add: st8_def st9_def fresh_put_list)
  have c9: "cells st9 a =
      (if a = fresh st + 3 then
         map (\<lambda>mo. FuncVal (func_of_match mo)) (finditer function_pattern content) @
         map (\<lambda>mo. FuncVal (func_of_match mo)) (finditer arrow_pattern content)
       else cells st7 a)" for a
    using c7[of "fresh st + 3"] by (simp add: st8_def st9_def cells_put_list an c6 c0)
  have cl9: "clss_of st9 (cells st7 (fresh st + 2)) = clss_of st7 (cells st7 (fresh st + 2))"
  proof (rule clss_of_cong)
    fix a assume "a \<in> set (cls_addrs (cells st7 (fresh st + 2)))"
    with r7 have "a \<noteq> fresh st + 3" by auto
    then show "cells st9 a = cells st7 a" by (simp add: c9)
  qed
  have snap: "analyze_typescript_file content probe =
      Inr (snapshot st9 (an\<lparr>has_tests_o := probe\<rparr>))"
    unfolding analyze_typescript_file_eq snapshot_def
    using r7 cl9 by (simp add: an c9 c7 c6 c0 cs_def)
  have unt: "untouched st st9"
    unfolding untouched_def
  proof (intro conjI allI impI)
    show "fresh st \<le> fresh st9" using f7 f9 by simp
    fix a assume a: "a < fresh st"
    then show "cells st9 a = cells st a" by (simp add: c9 c7 c6 c0)
  qed
  have al: "allocated st9 (an\<lparr>has_tests_o := probe\<rparr>)"
    using r7 f7 by (auto simp: allocated_def an f9 c9)
  from run snap unt al show ?thesis by blast
qed

lemma st_py_imports:
  "foldE (st_py_import_step r) (finditer py_import_pattern content) st =
     Inr (put_list r (cells st r @ map (\<lambda>mo. StrVal (gstr mo 1)) (finditer py_import_pattern content)) st)"
proof -
  have "st_py_import_step r mo st = Inr (list_append r (StrVal (gstr mo 1)) st)"
    if "mo \<in> set (finditer py_import_pattern content)" for mo st
  proof -
    note v = finditer_valid[OF that]
    have "group_n mo 1 = Inr (grp mo 1)" by (rule group_valid[OF v]) (simp_all add: pattern_defs)
    moreover have "grp mo 1 = Some (gstr mo 1)" by (rule must_Some[OF v]) (simp add: pattern_defs)
    ultimately show ?thesis by (simp add: st_py_import_step_def ebind_def str_of_def)
  qed
  then show ?thesis
    using st_loop[where f="st_py_import_step r" and skip="\<lambda>_. False"
        and h="\<lambda>mo. StrVal (gstr mo 1)" and xs="finditer py_import_pattern content" and r=r and st=st]
    by simp
qed

lemma st_py_methods:
  "foldE (st_py_method_step r) (finditer py_method_pattern w) st =
     Inr (put_list r (cells st r @ map (\<lambda>mm. FuncVal (py_def_of_match mm))
            (filter py_method_kept (finditer py_method_pattern w))) st)"
proof -
  have "st_py_method_step r mm st =
          Inr (if \<not> py_method_kept mm then st
               else list_append r (FuncVal (py_def_of_match mm)) st)"
    if "mm \<in> set (finditer py_method_pattern w)" for mm st
  proof -
    note v = finditer_valid[OF that]
    have "group_n mm 1 = Inr (grp mm 1)" "group_n mm 2 = Inr (grp mm 2)" "group_n mm 3 = Inr (grp mm 3)"
      by (rule group_valid[OF v]; simp add: pattern_defs)+
    moreover have "grp mm 1 = Some (gstr mm 1)" "grp mm 2 = Some (gstr mm 2)"
      by (rule must_Some[OF v]; simp add: pattern_defs)+
    ultimately show ?thesis
      by (simp add: st_py_method_step_def group_zero ebind_def str_of_def strip_of_def
            strip_if_truthy_eq startswith_def py_method_kept_def dunder_def py_def_of_match_def
            opt_strip_def)
  qed
  then show ?thesis
    using st_loop[where f="st_py_method_step r" and skip="\<lambda>mm. \<not> py_method_kept mm"
        and h="\<lambda>mm. FuncVal (py_def_of_match mm)" and xs="finditer py_method_pattern w"
        and r=r and st=st]
    by simp
qed

lemma st_py_class_step_eq:
  assumes "valid py_class_pattern mo"
  shows "st_py_class_step content r mo st =
           Inr (add_classes r [py_class_of_match content mo] st)"
proof -
  have "group_n mo 1 = Inr (grp mo 1)"
    by (rule group_valid[OF assms]; simp add: pattern_defs)
  moreover have "grp mo 1 = Some (gstr mo 1)"
    by (rule must_Some[OF assms]) (simp add: pattern_defs)
  ultimately show ?thesis
    by (simp add: st_py_class_step_def ebind_def str_of_def new_list_def st_py_methods
          py_class_of_match_def class_section_of_def put_list_def list_append_def o_def)
qed

lemma st_py_classes:
  "foldE (st_py_class_step content r) (finditer py_class_pattern content) st =
     Inr (add_classes r (map (py_class_of_match content) (finditer py_class_pattern content)) st)"
  by (rule st_class_loop) (simp add: st_py_class_step_eq finditer_valid)

lemma st_py_func_step_eq:
  assumes "valid func_pattern mo"
  shows "st_py_func_step rc r mo st =
           Inr (if grp mo 1 \<in> set (st_method_names rc st) then st
                else list_append r (FuncVal (py_def_of_match mo)) st)"
proof -
  have "group_n mo 1 = Inr (grp mo 1)" "group_n mo 2 = Inr (grp mo 2)" "group_n mo 3 = Inr (grp mo 3)"
    by (rule group_valid[OF assms]; simp add: pattern_defs)+
  moreover have "grp mo 2 = Some (gstr mo 2)"
    by (rule must_Some[OF assms]; simp add: pattern_defs)
  ultimately show ?thesis
    by (simp add: st_py_func_step_def group_zero ebind_def str_of_def strip_of_def
          strip_if_truthy_eq py_def_of_match_def opt_strip_def)
qed

lemma st_py_funcs:
  assumes "r \<noteq> rc" "r \<notin> set (cls_addrs (cells st rc))" "\<forall>x\<in>set xs. valid func_pattern x"
  shows "foldE (st_py_func_step rc r) xs st =
     Inr (put_list r (cells st r @ map (\<lambda>mo. FuncVal (py_def_of_match mo))
            (filter (\<lambda>mo. grp mo 1 \<notin> set (st_method_names rc st)) xs)) st)"
  using assms
proof (induction xs arbitrary: st)
  case Nil
  show ?case by (simp add: put_list_def)
next
  case (Cons x xs)
  let ?st1 = "list_append r (FuncVal (py_def_of_match x)) st"
  have rc1: "cells ?st1 rc = cells st rc" using Cons.prems(1) by (simp add: list_append_def)
  have "clss_of ?st1 (cells st rc) = clss_of st (cells st rc)"
    by (rule clss_of_cong) (use Cons.prems(2) in \<open>auto simp: list_append_def\<close>)
  then have n1: "st_method_names rc ?st1 = st_method_names rc st"
    by (simp add: st_method_names_def rc1)
  have step: "st_py_func_step rc r x st =
           Inr (if grp x 1 \<in> set (st_method_names rc st) then st else ?st1)"
    by (rule st_py_func_step_eq) (use Cons.prems(3) in simp)
  show ?case
  proof (cases "grp x 1 \<in> set (st_method_names rc st)")
    case True
    with step Cons.IH[OF Cons.prems(1,2)] Cons.prems(3) show ?thesis by simp
  next
    case False
    have p2: "r \<notin> set (cls_addrs (cells ?st1 rc))" using Cons.prems(2) rc1 by simp
    from Cons.IH[OF Cons.prems(1) p2] Cons.prems(3)
    have "foldE (st_py_func_step rc r) xs ?st1 =
      Inr (put_list r (cells ?st1 r @ map (\<lambda>mo. FuncVal (py_def_of_match mo))
            (filter (\<lambda>mo. grp mo 1 \<notin> set (st_method_names rc st)) xs)) ?st1)"
      by (simp add: n1)
    with step False show ?thesis by (simp add: list_append_def put_list_def)
  qed
qed

lemma st_py_run:
  "\<exists>an st'. st_analyze_python_file content probe st = Inr (an, st') \<and>
      analyze_python_file content probe = Inr (snapshot st' an) \<and>
      untouched st st' \<and> allocated st' an"
proof -
  define an where "an = fst (FileAnalysis_obj_new st)"
  define st0 where "st0 = snd (FileAnalysis_obj_new st)"
  define st1 where "st1 = put_list (imports_at an) (cells st0 (imports_at an) @
      map (\<lambda>mo. StrVal (gstr mo 1)) (finditer py_import_pattern content)) st0"
  define cs where "cs = map (py_class_of_match content) (finditer py_class_pattern content)"
  define st2 where "st2 = add_classes (classes_at an) cs st1"
  define st3 where "st3 = put_list (functions_at an) (cells st2 (functions_at an) @
      map (\<lambda>mo. FuncVal (py_def_of_match mo))
        (filter (\<lambda>mo. grp mo 1 \<notin> set (st_method_names (classes_at an) st2))
           (finditer func_pattern content))) st2"
  have an: "imports_at an = fresh st" "exports_at an = fresh st + 1"
    "classes_at an = fresh st + 2" "functions_at an = fresh st + 3" "types_at an = fresh st + 4"
    "has_tests_o an = False"
    by (simp_all add: an_def FileAnalysis_obj_new_facts)
  have pair: "FileAnalysis_obj_new st = (an, st0)" by (simp add: an_def st0_def)
  have f0: "fresh st0 = fresh st + 5" by (simp add: st0_def FileAnalysis_obj_new_facts)
  have c0: "cells st0 a = (if fresh st \<le> a \<and> a < fresh st + 5 then [] else cells st a)" for a
    by (simp add: st0_def FileAnalysis_obj_new_facts)
  have f1: "fresh st1 = fresh st + 5" by (simp add: st1_def fresh_put_list f0)
  have c1: "cells st1 a =
      (if a = fresh st then map (\<lambda>mo. StrVal (gstr mo 1)) (finditer py_import_pattern content)
       else cells st0 a)" for a
    by (simp add: st1_def cells_put_list an c0)
  have c2: "cells st2 a = cells st1 a" if "a < fresh st + 5" "a \<noteq> fresh st + 2" for a
    unfolding st2_def by (rule cells_add_classes) (use that in \<open>simp_all add: f1 an\<close>)
  have r2: "clss_of st2 (cells st2 (fresh st + 2)) = cs \<and>
         (\<forall>a\<in>set (cls_addrs (cells st2 (fresh st + 2))).
            a < fresh st2 \<and> a \<noteq> fresh st + 2 \<and> fresh st + 5 \<le> a)"
    using read_add_classes[of "fresh st + 2" st1 "fresh st + 5" cs]
    by (simp add: st2_def an f1 c1 c0)
  have f2: "fresh st + 5 \<le> fresh st2" by (simp add: st2_def f1)
  have names: "st_method_names (classes_at an) st2 = method_names cs"
    using r2 by (simp add: st_method_names_def method_names_def an)
  have loop3: "foldE (st_py_func_step (classes_at an) (functions_at an))
      (finditer func_pattern content) st2 = Inr st3"
    unfolding st3_def
    by (rule st_py_funcs) (use r2 in \<open>auto simp: an finditer_valid\<close>)
  have loop1: "foldE (st_py_import_step (imports_at an))
      (finditer py_import_pattern content) st0 = Inr st1"
    unfolding st1_def by (rule st_py_imports)
  have loop2: "foldE (st_py_class_step content (classes_at an))
      (finditer py_class_pattern content) st1 = Inr st2"
    unfolding st2_def cs_def by (rule st_py_classes)
  have run: "st_analyze_python_file content probe st = Inr (an\<lparr>has_tests_o := probe\<rparr>, st3)"
    unfolding st_analyze_python_file_def pair
    by (simp add: loop1 loop2 loop3 ebind_def)
  have f3: "fresh st3 = fresh st2" by (simp add: st3_def fresh_put_list)
  have c3: "cells st3 a =
      (if a = fresh st + 3 then map (\<lambda>mo. FuncVal (py_def_of_match mo))
        (filter (\<lambda>mo. grp mo 1 \<notin> set (method_names cs)) (finditer func_pattern content))
       else cells st2 a)" for a
    using c2[of "fresh st + 3"] names by (simp add: st3_def cells_put_list an c1 c0)
  have cl3: "clss_of st3 (cells st2 (fresh st + 2)) = clss_of st2 (cells st2 (fresh st + 2))"
  proof (rule clss_of_cong)
    fix a assume "a \<in> set (cls_addrs (cells st2 (fresh st + 2)))"
    with r2 have "a \<noteq> fresh st + 3" by auto
    then show "cells st3 a = cells st2 a" by (simp add: c3)
  qed
  have snap: "analyze_python_file content probe =
      Inr (snapshot st3 (an\<lparr>has_tests_o := probe\<rparr>))"
    unfolding analyze_python_file_eq snapshot_def
    using r2 cl3 by (simp add: an c3 c2 c1 c0 cs_def)
  have unt: "untouched st st3"
    unfolding untouched_def
  proof (intro conjI allI impI)
    show "fresh st \<le> fresh st3" using f2 f3 by simp
    fix a assume a: "a < fresh st"
    then show "cells st3 a = cells st a" by (simp add: c3 c2 c1 c0)
  qed
  have al: "allocated st3 (an\<lparr>has_tests_o := probe\<rparr>)"
    using r2 f2 by (auto simp: allocated_def an f3 c3)
  from run snap unt al show ?thesis by blast
qed

lemma st_other_run:
  "\<exists>an st'. (let (analysis, st0) = FileAnalysis_obj_new st
              in Inr (analysis\<lparr>has_tests_o := probe\<rparr>, st0)) = (Inr (an, st') :: error + _) \<and>
      FileAnalysis_new\<lparr>has_tests := probe\<rparr> = snapshot st' an \<and>
      untouched st st' \<and> allocated st' an"
  by (auto simp: FileAnalysis_obj_new_def new_list_def snapshot_def untouched_def allocated_def
        FileAnalysis_new_def)

lemma st_run:
  "\<exists>an st'. st_analyze_content ext content probe st = Inr (an, st') \<and>
      analyze_content ext content probe = Inr (snapshot st' an) \<and>
      untouched st st' \<and> allocated st' an"
  unfolding st_analyze_content_def analyze_content_def
  using st_ts_run[of content probe st] st_py_run[of content probe st] st_other_run[of st probe]
  by (simp split: if_splits)

text \<open>
  Claim C10. Run on any store, the analysis returns an object whose record is the one the
  value-level functions give for the text, the extension and the answer of the probe; so
  two runs on the same text, one after the other on the store the first has left or on
  any other store, return the same record, field for field, and the second run leaves
  the record of the first as it was.
\<close>

theorem extraction_deterministic:
  "\<exists>a1 s1 a2 s2 b t'.
     st_analyze_content ext content probe s = Inr (a1, s1) \<and>
     st_analyze_content ext content probe s1 = Inr (a2, s2) \<and>
     st_analyze_content ext content probe t = Inr (b, t') \<and>
     snapshot s2 a2 = snapshot s1 a1 \<and>
     snapshot t' b = snapshot s1 a1 \<and>
     snapshot s2 a1 = snapshot s1 a1 \<and>
     analyze_content ext content probe = Inr (snapshot s1 a1)"
proof -
  from st_run[of ext content probe s] obtain a1 s1 where
    1: "st_analyze_content ext content probe s = Inr (a1, s1)"
      "analyze_content ext content probe = Inr (snapshot s1 a1)" "allocated s1 a1"
    by blast
  from st_run[of ext content probe s1] obtain a2 s2 where
    2: "st_analyze_content ext content probe s1 = Inr (a2, s2)"
      "analyze_content ext content probe = Inr (snapshot s2 a2)" "untouched s1 s2"
    by blast
  from st_run[of ext content probe t] obtain b t' where
    3: "st_analyze_content ext content probe t = Inr (b, t')"
      "analyze_content ext content probe = Inr (snapshot t' b)"
    by blast
  have "snapshot s2 a2 = snapshot s1 a1" using 1(2) 2(2) by simp
  moreover have "snapshot t' b = snapshot s1 a1" using 1(2) 3(2) by simp
  moreover have "snapshot s2 a1 = snapshot s1 a1" by (rule snapshot_untouched[OF 1(3) 2(3)])
  ultimately show ?thesis using 1(1,2) 2(1) 3(1) by blast
qed

theorem extraction_deterministic_witness:
  "\<exists>a1 s1 a2 s2.
     st_analyze_content ''.py'' (''class A:'' @ [CHR 0x0A] @ '' def run(self): pass'') False
        \<lparr>cells = \<lambda>a. [], fresh = 0\<rparr> = Inr (a1, s1) \<and>
     st_analyze_content ''.py'' (''class A:'' @ [CHR 0x0A] @ '' def run(self): pass'') False s1 =
        Inr (a2, s2) \<and>
     snapshot s2 a2 = snapshot s1 a1 \<and>
     snapshot s2 a1 = snapshot s1 a1 \<and>
     snapshot s1 a1 = \<lparr>imports_a = [], exports_a = [],
       classes_a = [\<lparr>name_c = ''A'', methods =
         [\<lparr>name = Some ''run'', signature = ''(self)'', is_async = False, is_exported = False\<rparr>],
         is_exported_c = False\<rparr>],
       functions_a = [], types_a = [], has_tests = False\<rparr>"
proof -
  have v: "analyze_content ''.py'' (''class A:'' @ [CHR 0x0A] @ '' def run(self): pass'') False =
     Inr \<lparr>imports_a = [], exports_a = [],
       classes_a = [\<lparr>name_c = ''A'', methods =
         [\<lparr>name = Some ''run'', signature = ''(self)'', is_async = False, is_exported = False\<rparr>],
         is_exported_c = False\<rparr>],
       functions_a = [], types_a = [], has_tests = False\<rparr>"
    by code_simp
  from extraction_deterministic[of "''.py''"
      "''class A:'' @ [CHR 0x0A] @ '' def run(self): pass''" False
      "\<lparr>cells = \<lambda>a. [], fresh = 0\<rparr>" "\<lparr>cells = \<lambda>a. [], fresh = 0\<rparr>"]
  obtain a1 s1 a2 s2 where
    r: "st_analyze_content ''.py'' (''class A:'' @ [CHR 0x0A] @ '' def run(self): pass'') False
        \<lparr>cells = \<lambda>a. [], fresh = 0\<rparr> = Inr (a1, s1)"
       "st_analyze_content ''.py'' (''class A:'' @ [CHR 0x0A] @ '' def run(self): pass'') False s1 =
        Inr (a2, s2)"
       "snapshot s2 a2 = snapshot s1 a1" "snapshot s2 a1 = snapshot s1 a1"
       "analyze_content ''.py'' (''class A:'' @ [CHR 0x0A] @ '' def run(self): pass'') False =
          Inr (snapshot s1 a1)"
    by blast
  from r(5) v have "snapshot s1 a1 = \<lparr>imports_a = [], exports_a = [],
       classes_a = [\<lparr>name_c = ''A'', methods =
         [\<lparr>name = Some ''run'', signature = ''(self)'', is_async = False, is_exported = False\<rparr>],
         is_exported_c = False\<rparr>],
       functions_a = [], types_a = [], has_tests = False\<rparr>" by simp
  with r(1-4) show ?thesis by blast
qed

end
